theory Spec2Isabelle
  imports Complex_Main
begin

section \<open>VeinMiner: configuration and per-player engine state\<close>

text \<open>
  The plugin object of \<^verbatim>\<open>vein_miner_plugin.py\<close> keeps its settings and its per-player
  tables as attributes of one class. The settings read by the functions verified here
  are gathered in the record \<open>config\<close>; the mutable per-player dictionaries and sets are
  gathered in the record \<open>plugin_state\<close>, which every operation takes and returns.
  Python integers are unbounded, hence \<open>int\<close>; player ids and block ids are strings.
  Every \<^verbatim>\<open>int(time.time() * 1000)\<close> of the source is an explicit argument: the
  millisecond clock reading made at that place.
\<close>

type_synonym player_id = string
type_synonym pos = "int \<times> int \<times> int"

record config =
  max_blocks :: int
  min_vein_size :: int
  cooldown_ms :: int
  max_reach_distance :: int
  mining_pattern :: string
  pattern_radius :: int
  include_diagonals :: bool
  vertical_range :: int
  horizontal_range :: int
  enable_limits :: bool
  max_veins_per_day :: int
  max_blocks_per_day :: int
  max_veins_per_minute :: int
  temporary_block_duration :: int
  require_correct_tool :: bool
  per_block_permissions :: bool
  activation_mode :: string
  disabled_worlds :: "string list"
  vein_blocks :: "string set"
  has_stats_tracker :: bool
  auto_smelt_enabled :: bool
  auto_smelt_require_fortune :: bool
  auto_smelt_whitelist :: "string set"
  durability_multiplier :: rat
  respect_unbreaking :: bool
  break_on_exceed :: bool

record plugin_state =
  blocked_players :: "player_id \<rightharpoonup> int"
  minute_vein_count :: "player_id \<rightharpoonup> int list"
  daily_vein_count :: "player_id \<rightharpoonup> int"
  daily_block_count :: "player_id \<rightharpoonup> int"
  last_vein_mine :: "player_id \<rightharpoonup> int"
  last_cooldown_message :: "player_id \<rightharpoonup> int"
  last_error_message :: "player_id \<rightharpoonup> int"
  processing_vein :: "player_id set"
  disabled_players :: "player_id set"
  neighbor_offsets :: "pos list option"

section \<open>Configuration loading\<close>

text \<open>
  The part of \<^verbatim>\<open>load_config\<close> that validates the settings used below. The argument
  holds, field by field, what \<^verbatim>\<open>config.get(key, default)\<close> returned; the result is
  what \<^verbatim>\<open>load_config\<close> stores. Fields that the source stores unchecked are copied.
  The four limit values pass through \<^verbatim>\<open>int()\<close>, the identity on the integers held
  here, and are reset to their defaults when out of range. \<^verbatim>\<open>str.lower\<close> is modelled
  on ASCII letters.
\<close>

definition DEFAULT_MAX_BLOCKS :: int where
  "DEFAULT_MAX_BLOCKS = 64"

definition UNLIMITED_MAX_BLOCKS :: int where
  "UNLIMITED_MAX_BLOCKS = 4096"

definition COOLDOWN_MS :: int where
  "COOLDOWN_MS = 100"

definition py_lower :: "string \<Rightarrow> string" where
  "py_lower s =
     map (\<lambda>c. if 65 \<le> (of_char c :: nat) \<and> (of_char c :: nat) \<le> 90
              then char_of ((of_char c :: nat) + 32) else c) s"

definition load_config :: "config \<Rightarrow> config" where
  "load_config raw = raw
     \<lparr>max_blocks :=
        (if max_blocks raw = -1 then UNLIMITED_MAX_BLOCKS
         else if max_blocks raw < 1 \<or> max_blocks raw > UNLIMITED_MAX_BLOCKS then DEFAULT_MAX_BLOCKS
         else max_blocks raw),
      min_vein_size := (if min_vein_size raw < 1 then 2 else min_vein_size raw),
      cooldown_ms := (if cooldown_ms raw < 0 then COOLDOWN_MS else cooldown_ms raw),
      max_reach_distance := (if max_reach_distance raw < 1 then 100 else max_reach_distance raw),
      mining_pattern :=
        (let p = py_lower (mining_pattern raw)
         in if p \<notin> set [''adjacent'', ''cube'', ''sphere'', ''vertical'', ''horizontal'']
            then ''adjacent'' else p),
      pattern_radius :=
        (let r = (if pattern_radius raw < 1 then 1 else pattern_radius raw)
         in if r > 6 then 6 else r),
      vertical_range :=
        (let v = (if vertical_range raw < 1 then 1 else vertical_range raw)
         in if v > 16 then 16 else v),
      horizontal_range :=
        (let h = (if horizontal_range raw < 1 then 1 else horizontal_range raw)
         in if h > 16 then 16 else h),
      activation_mode :=
        (let m = py_lower (activation_mode raw)
         in if m \<notin> set [''sneak'', ''stand'', ''always''] then ''sneak'' else m),
      max_veins_per_day := (if max_veins_per_day raw < 0 then 1000 else max_veins_per_day raw),
      max_blocks_per_day := (if max_blocks_per_day raw < 0 then 10000 else max_blocks_per_day raw),
      max_veins_per_minute :=
        (if max_veins_per_minute raw < 0 then 60 else max_veins_per_minute raw),
      temporary_block_duration :=
        (if temporary_block_duration raw < 1 then 5 else temporary_block_duration raw),
      durability_multiplier :=
        (if durability_multiplier raw < 0 then 1 else durability_multiplier raw)\<rparr>"

section \<open>Abuse and rate gate\<close>

text \<open>
  \<^verbatim>\<open>is_player_blocked\<close>: a player without an entry is not blocked; an entry whose
  unblock time has been reached is deleted and the player is not blocked; otherwise the
  player is blocked.
\<close>

definition is_player_blocked :: "plugin_state \<Rightarrow> player_id \<Rightarrow> int \<Rightarrow> bool \<times> plugin_state" where
  "is_player_blocked st pid current_time =
     (case blocked_players st pid of
        None \<Rightarrow> (False, st)
      | Some unblock_time \<Rightarrow>
          if current_time \<ge> unblock_time
          then (False, st\<lparr>blocked_players := (blocked_players st)(pid := None)\<rparr>)
          else (True, st))"

definition block_player_temporarily :: "config \<Rightarrow> plugin_state \<Rightarrow> player_id \<Rightarrow> int \<Rightarrow> plugin_state" where
  "block_player_temporarily cfg st pid current_time =
     st\<lparr>blocked_players :=
          (blocked_players st)(pid \<mapsto> current_time + temporary_block_duration cfg * 60 * 1000)\<rparr>"

text \<open>
  \<^verbatim>\<open>check_rate_limits\<close> returns True when the player may go on. A non-positive
  \<^verbatim>\<open>max_veins_per_minute\<close> switches the check off before anything is touched. Otherwise
  the player's list is created when missing, pruned to the timestamps younger than
  60000 ms, and compared with the maximum.
\<close>

definition check_rate_limits :: "config \<Rightarrow> plugin_state \<Rightarrow> player_id \<Rightarrow> int \<Rightarrow> bool \<times> plugin_state" where
  "check_rate_limits cfg st pid current_time =
     (if max_veins_per_minute cfg \<le> 0 then (True, st)
      else
        let old = (case minute_vein_count st pid of None \<Rightarrow> [] | Some ts \<Rightarrow> ts);
            kept = filter (\<lambda>t. current_time - t < 60000) old;
            st' = st\<lparr>minute_vein_count := (minute_vein_count st)(pid \<mapsto> kept)\<rparr>
        in if int (length kept) \<ge> max_veins_per_minute cfg then (False, st') else (True, st'))"

definition check_daily_limits :: "config \<Rightarrow> plugin_state \<Rightarrow> player_id \<Rightarrow> int \<Rightarrow> bool" where
  "check_daily_limits cfg st pid block_count =
     (if \<not> enable_limits cfg then True
      else
        let vein_count = (case daily_vein_count st pid of None \<Rightarrow> 0 | Some c \<Rightarrow> c);
            blocks_count = (case daily_block_count st pid of None \<Rightarrow> 0 | Some c \<Rightarrow> c)
        in if vein_count \<ge> max_veins_per_day cfg then False
           else if blocks_count + block_count > max_blocks_per_day cfg then False
           else True)"

definition record_vein_usage :: "config \<Rightarrow> plugin_state \<Rightarrow> player_id \<Rightarrow> int \<Rightarrow> int \<Rightarrow> plugin_state" where
  "record_vein_usage cfg st pid block_count current_time =
     (let old = (case minute_vein_count st pid of None \<Rightarrow> [] | Some ts \<Rightarrow> ts);
          st1 = st\<lparr>minute_vein_count := (minute_vein_count st)(pid \<mapsto> old @ [current_time])\<rparr>
      in if enable_limits cfg
         then st1\<lparr>daily_vein_count :=
                    (daily_vein_count st1)(pid \<mapsto> (case daily_vein_count st1 pid of None \<Rightarrow> 0 | Some c \<Rightarrow> c) + 1),
                  daily_block_count :=
                    (daily_block_count st1)(pid \<mapsto> (case daily_block_count st1 pid of None \<Rightarrow> 0 | Some c \<Rightarrow> c) + block_count)\<rparr>
         else st1)"

section \<open>Neighbor pattern builder\<close>

text \<open>
  \<^verbatim>\<open>range(a, b)\<close> of Python is the list of integers from \<open>a\<close> up to \<open>b - 1\<close>.
  \<open>offsets_before_cap\<close> is the value of the local list \<^verbatim>\<open>offsets\<close> of
  \<^verbatim>\<open>build_neighbor_offsets\<close> when the nested loops are done (the loops append in
  the order of the list comprehensions below, a \<^verbatim>\<open>continue\<close> being a negated
  guard); \<open>build_neighbor_offsets\<close> then applies the hard cap of 512 entries.
  Any pattern name other than the first four falls into the last branch (adjacent).
\<close>

definition py_range :: "int \<Rightarrow> int \<Rightarrow> int list" where
  "py_range a b = [a..b - 1]"

definition NEIGHBOR_RANGE :: int where
  "NEIGHBOR_RANGE = 1"

definition offsets_before_cap :: "config \<Rightarrow> pos list" where
  "offsets_before_cap cfg =
     (if mining_pattern cfg = ''vertical'' then
        [(0, dy, 0). dy \<leftarrow> py_range (- vertical_range cfg) (vertical_range cfg + 1), dy \<noteq> 0]
      else if mining_pattern cfg = ''horizontal'' then
        [(dx, 0, dz).
           dx \<leftarrow> py_range (- horizontal_range cfg) (horizontal_range cfg + 1),
           dz \<leftarrow> py_range (- horizontal_range cfg) (horizontal_range cfg + 1),
           \<not> (dx = 0 \<and> dz = 0),
           \<not> (\<not> include_diagonals cfg \<and> \<bar>dx\<bar> + \<bar>dz\<bar> \<noteq> 1)]
      else if mining_pattern cfg = ''cube'' then
        (let radius = pattern_radius cfg in
         [(dx, dy, dz).
           dx \<leftarrow> py_range (- radius) (radius + 1),
           dy \<leftarrow> py_range (- radius) (radius + 1),
           dz \<leftarrow> py_range (- radius) (radius + 1),
           \<not> (dx = 0 \<and> dy = 0 \<and> dz = 0)])
      else if mining_pattern cfg = ''sphere'' then
        (let radius = pattern_radius cfg; radius_sq = radius * radius in
         [(dx, dy, dz).
           dx \<leftarrow> py_range (- radius) (radius + 1),
           dy \<leftarrow> py_range (- radius) (radius + 1),
           dz \<leftarrow> py_range (- radius) (radius + 1),
           \<not> (dx = 0 \<and> dy = 0 \<and> dz = 0),
           dx * dx + dy * dy + dz * dz \<le> radius_sq])
      else
        [(dx, dy, dz).
           dx \<leftarrow> py_range (- NEIGHBOR_RANGE) (NEIGHBOR_RANGE + 1),
           dy \<leftarrow> py_range (- NEIGHBOR_RANGE) (NEIGHBOR_RANGE + 1),
           dz \<leftarrow> py_range (- NEIGHBOR_RANGE) (NEIGHBOR_RANGE + 1),
           \<not> (dx = 0 \<and> dy = 0 \<and> dz = 0),
           \<not> (\<not> include_diagonals cfg \<and> \<bar>dx\<bar> + \<bar>dy\<bar> + \<bar>dz\<bar> \<noteq> 1)])"

definition build_neighbor_offsets :: "config \<Rightarrow> pos list" where
  "build_neighbor_offsets cfg =
     (let offsets = offsets_before_cap cfg
      in if length offsets > 512 then take 512 offsets else offsets)"

text \<open>
  The configurations the builder is specified for: one of the five pattern names, the
  radius within 1..6 and both ranges within 1..16 (the bounds \<^verbatim>\<open>load_config\<close> clamps to).
\<close>

definition valid_config :: "config \<Rightarrow> bool" where
  "valid_config cfg \<longleftrightarrow>
     mining_pattern cfg \<in> {''adjacent'', ''cube'', ''sphere'', ''vertical'', ''horizontal''} \<and>
     1 \<le> pattern_radius cfg \<and> pattern_radius cfg \<le> 6 \<and>
     1 \<le> vertical_range cfg \<and> vertical_range cfg \<le> 16 \<and>
     1 \<le> horizontal_range cfg \<and> horizontal_range cfg \<le> 16"

text \<open>
  The per-pattern rule in the words of the specification (section 4.1), as a set of
  offsets; it is compared with what the code builds.
\<close>

definition pattern_rule :: "config \<Rightarrow> pos set" where
  "pattern_rule cfg =
     (if mining_pattern cfg = ''adjacent'' then
        {(dx, dy, dz). dx \<in> {-1..1} \<and> dy \<in> {-1..1} \<and> dz \<in> {-1..1} \<and> (dx, dy, dz) \<noteq> (0, 0, 0) \<and>
           (include_diagonals cfg \<or> \<bar>dx\<bar> + \<bar>dy\<bar> + \<bar>dz\<bar> = 1)}
      else if mining_pattern cfg = ''cube'' then
        {(dx, dy, dz). dx \<in> {- pattern_radius cfg..pattern_radius cfg} \<and>
           dy \<in> {- pattern_radius cfg..pattern_radius cfg} \<and>
           dz \<in> {- pattern_radius cfg..pattern_radius cfg} \<and> (dx, dy, dz) \<noteq> (0, 0, 0)}
      else if mining_pattern cfg = ''sphere'' then
        {(dx, dy, dz). dx \<in> {- pattern_radius cfg..pattern_radius cfg} \<and>
           dy \<in> {- pattern_radius cfg..pattern_radius cfg} \<and>
           dz \<in> {- pattern_radius cfg..pattern_radius cfg} \<and> (dx, dy, dz) \<noteq> (0, 0, 0) \<and>
           dx * dx + dy * dy + dz * dz \<le> pattern_radius cfg * pattern_radius cfg}
      else if mining_pattern cfg = ''vertical'' then
        {(dx, dy, dz). dx = 0 \<and> dz = 0 \<and> dy \<in> {- vertical_range cfg..vertical_range cfg} \<and> dy \<noteq> 0}
      else if mining_pattern cfg = ''horizontal'' then
        {(dx, dy, dz). dy = 0 \<and> dx \<in> {- horizontal_range cfg..horizontal_range cfg} \<and>
           dz \<in> {- horizontal_range cfg..horizontal_range cfg} \<and> (dx, dy, dz) \<noteq> (0, 0, 0) \<and>
           (include_diagonals cfg \<or> \<bar>dx\<bar> + \<bar>dz\<bar> = 1)}
      else {})"

section \<open>Vein discovery\<close>

text \<open>
  The world is read through \<^verbatim>\<open>dimension.get_block_at(x, y, z).type\<close>. A fetch that
  raises, or that yields no block, is \<open>None\<close>: at both places where \<^verbatim>\<open>find_vein\<close>
  fetches a block, every such failure is caught and treated like a block of another
  type. The world does not change while a search runs (the handler is synchronous).
\<close>

type_synonym world = "pos \<Rightarrow> string option"

definition MIN_WORLD_HEIGHT :: int where
  "MIN_WORLD_HEIGHT = -64"

definition MAX_WORLD_HEIGHT :: int where
  "MAX_WORLD_HEIGHT = 320"

text \<open>
  The inner \<^verbatim>\<open>for dx, dy, dz in neighbors\<close> loop of \<^verbatim>\<open>find_vein\<close>, by recursion on the
  list of offsets still to do. It threads the \<^verbatim>\<open>visited\<close> set and the FIFO queue.
\<close>

fun check_neighbors :: "world \<Rightarrow> string \<Rightarrow> pos \<Rightarrow> pos list \<Rightarrow> pos set \<times> pos list \<Rightarrow> pos set \<times> pos list" where
  "check_neighbors w block_type (cx, cy, cz) [] (visited, queue) = (visited, queue)"
| "check_neighbors w block_type (cx, cy, cz) ((dx, dy, dz) # rest) (visited, queue) =
     (let nx = cx + dx; ny = cy + dy; nz = cz + dz in
      if ny < MIN_WORLD_HEIGHT \<or> ny > MAX_WORLD_HEIGHT
      then check_neighbors w block_type (cx, cy, cz) rest (visited, queue)
      else
        let pos = (nx, ny, nz) in
        if pos \<notin> visited
        then check_neighbors w block_type (cx, cy, cz) rest
               (insert pos visited, if w pos = Some block_type then queue @ [pos] else queue)
        else check_neighbors w block_type (cx, cy, cz) rest (visited, queue))"

text \<open>
  The \<^verbatim>\<open>while queue and len(vein) < self.max_blocks\<close> loop. The loop state is the
  queue, the visited set, the vein and the iteration counter; the vein is a Python set
  of blocks, kept here as a list of positions without repetition (\<open>List.insert\<close> adds
  an element only when it is absent), so that \<^verbatim>\<open>len(vein)\<close> is its length. The
  function returns the whole final state; \<^verbatim>\<open>find_vein\<close> returns its vein.
\<close>

type_synonym bfs_state = "pos list \<times> pos set \<times> pos list \<times> int"

definition max_iterations :: "config \<Rightarrow> int" where
  "max_iterations cfg = max 100 (max_blocks cfg * 10)"

function bfs_loop :: "config \<Rightarrow> world \<Rightarrow> string \<Rightarrow> pos \<Rightarrow> pos list \<Rightarrow> bfs_state \<Rightarrow> bfs_state" where
  "bfs_loop cfg w block_type start neighbors (queue, visited, vein, iterations) =
     (case queue of
        [] \<Rightarrow> (queue, visited, vein, iterations)
      | c # queue' \<Rightarrow>
          if \<not> int (length vein) < max_blocks cfg then (queue, visited, vein, iterations)
          else if iterations + 1 > max_iterations cfg then (queue, visited, vein, iterations + 1)
          else
            (case (c, start) of ((cx, cy, cz), (start_x, start_y, start_z)) \<Rightarrow>
               let dx = cx - start_x; dy = cy - start_y; dz = cz - start_z;
                   dist_sq = dx * dx + dy * dy + dz * dz
               in if dist_sq > max_reach_distance cfg * max_reach_distance cfg
                  then bfs_loop cfg w block_type start neighbors (queue', visited, vein, iterations + 1)
                  else if w c \<noteq> Some block_type
                  then bfs_loop cfg w block_type start neighbors (queue', visited, vein, iterations + 1)
                  else
                    let vein' = List.insert c vein in
                    if int (length vein') \<ge> max_blocks cfg then (queue', visited, vein', iterations + 1)
                    else
                      (case check_neighbors w block_type c neighbors (visited, queue') of
                         (visited', queue'') \<Rightarrow>
                           bfs_loop cfg w block_type start neighbors (queue'', visited', vein', iterations + 1))))"
  by pat_completeness auto
termination
  by (relation "measure (\<lambda>(cfg, w, block_type, start, neighbors, queue, visited, vein, iterations).
        nat (max_iterations cfg + 1 - iterations))") auto

text \<open>
  \<^verbatim>\<open>find_vein(start_block, dimension)\<close>. A missing start block or dimension, and a
  start block whose attributes cannot be read, are \<open>None\<close> and give the empty vein. A
  start block is its type and its position. The offsets are the cached
  \<^verbatim>\<open>_neighbor_offsets\<close> when present and are built from the configuration otherwise.
\<close>

type_synonym block = "string \<times> pos"

definition find_vein :: "config \<Rightarrow> pos list option \<Rightarrow> block option \<Rightarrow> world option \<Rightarrow> pos list" where
  "find_vein cfg neighbor_cache start_block dimension =
     (case (start_block, dimension) of
        (Some (block_type, start), Some w) \<Rightarrow>
          let neighbors = (case neighbor_cache of None \<Rightarrow> build_neighbor_offsets cfg | Some ns \<Rightarrow> ns)
          in (case bfs_loop cfg w block_type start neighbors ([start], {start}, [], 0) of
                (queue, visited, vein, iterations) \<Rightarrow> vein)
      | _ \<Rightarrow> [])"

text \<open>
  The vocabulary of the specification's vein invariant (section 3): a position shifted
  by an offset, the world's vertical bounds, the reach distance measured from the start
  (squared Euclidean, as the loop computes it), and the connected component: the
  positions reachable from the start through blocks of the start's type, each step an
  offset of the active pattern, each position within the height bounds and within reach.
  \<open>fringe\<close> holds the blocks of the same type that a member of the component touches
  beyond the reach distance: the search dequeues them and drops them.
\<close>

definition shift :: "pos \<Rightarrow> pos \<Rightarrow> pos" where
  "shift c off = (case (c, off) of ((cx, cy, cz), (dx, dy, dz)) \<Rightarrow> (cx + dx, cy + dy, cz + dz))"

definition height_ok :: "pos \<Rightarrow> bool" where
  "height_ok p = (case p of (x, y, z) \<Rightarrow> MIN_WORLD_HEIGHT \<le> y \<and> y \<le> MAX_WORLD_HEIGHT)"

definition in_reach :: "config \<Rightarrow> pos \<Rightarrow> pos \<Rightarrow> bool" where
  "in_reach cfg start p =
     (case (p, start) of ((x, y, z), (sx, sy, sz)) \<Rightarrow>
        (x - sx) * (x - sx) + (y - sy) * (y - sy) + (z - sz) * (z - sz)
          \<le> max_reach_distance cfg * max_reach_distance cfg)"

inductive_set component :: "config \<Rightarrow> world \<Rightarrow> string \<Rightarrow> pos \<Rightarrow> pos list \<Rightarrow> pos set"
  for cfg :: config and w :: world and block_type :: string and start :: pos and neighbors :: "pos list"
  where
    start: "w start = Some block_type \<Longrightarrow> start \<in> component cfg w block_type start neighbors"
  | step: "p \<in> component cfg w block_type start neighbors \<Longrightarrow> off \<in> set neighbors \<Longrightarrow>
           height_ok (shift p off) \<Longrightarrow> w (shift p off) = Some block_type \<Longrightarrow>
           in_reach cfg start (shift p off) \<Longrightarrow>
           shift p off \<in> component cfg w block_type start neighbors"

definition fringe :: "config \<Rightarrow> world \<Rightarrow> string \<Rightarrow> pos \<Rightarrow> pos list \<Rightarrow> pos set" where
  "fringe cfg w block_type start neighbors =
     {q. \<exists>p \<in> component cfg w block_type start neighbors. \<exists>off \<in> set neighbors.
           q = shift p off \<and> height_ok q \<and> w q = Some block_type \<and> \<not> in_reach cfg start q}"

text \<open>Auxiliary notions for the proofs about the search loop.\<close>

definition nbr_positions :: "pos \<Rightarrow> pos list \<Rightarrow> pos set" where
  "nbr_positions c nbrs = {q. \<exists>off \<in> set nbrs. q = shift c off \<and> height_ok q}"

definition vein_of :: "bfs_state \<Rightarrow> pos list" where
  "vein_of s = (case s of (queue, visited, vein, iterations) \<Rightarrow> vein)"

definition bfs_inv :: "config \<Rightarrow> world \<Rightarrow> string \<Rightarrow> pos \<Rightarrow> pos list \<Rightarrow> bfs_state \<Rightarrow> bool" where
  "bfs_inv cfg w bt start nbrs s =
     (case s of (Q, V, vein, it) \<Rightarrow>
        distinct (vein @ Q) \<and>
        set vein \<union> set Q \<subseteq> V \<and>
        finite V \<and>
        start \<in> V \<and>
        set vein \<subseteq> component cfg w bt start nbrs \<and>
        (\<forall>q \<in> set Q. q = start \<or> w q = Some bt) \<and>
        (\<forall>p \<in> set vein. nbr_positions p nbrs \<subseteq> V) \<and>
        (\<forall>q \<in> V. w q = Some bt \<and> in_reach cfg start q \<longrightarrow> q \<in> set vein \<union> set Q) \<and>
        (\<forall>q \<in> V. q = start \<or> (\<exists>p \<in> component cfg w bt start nbrs. q \<in> nbr_positions p nbrs)) \<and>
        it + int (length Q) = int (card {q \<in> V. q = start \<or> w q = Some bt}))"

definition bfs_sound :: "config \<Rightarrow> world \<Rightarrow> string \<Rightarrow> pos \<Rightarrow> bfs_state \<Rightarrow> bool" where
  "bfs_sound cfg w bt start s =
     (case s of (Q, V, vein, it) \<Rightarrow>
        (vein = [] \<or> int (length vein) \<le> max_blocks cfg) \<and>
        (\<forall>p \<in> set vein. in_reach cfg start p \<and> w p = Some bt \<and> (p = start \<or> height_ok p)) \<and>
        (\<forall>q \<in> set Q. q = start \<or> height_ok q))"

section \<open>Random source\<close>

text \<open>
  The functions below draw from Python's \<^verbatim>\<open>random\<close> module. The generator is a state
  threaded through the calls: the list of the raw numbers it will deliver next, any
  list being possible. \<^verbatim>\<open>random.randint(a, b)\<close> maps the next raw number into
  \<open>a..b\<close> (every value of the range arises from some raw number), and
  \<^verbatim>\<open>random.random()\<close> maps it to a multiple of \<open>2\<^sup>-\<^sup>5\<^sup>3\<close> in \<open>[0, 1)\<close>, as
  CPython does. An exhausted list delivers the lowest value. Every call below has
  \<open>a \<le> b\<close> (Python raises for an empty range).
\<close>

type_synonym rng = "nat list"

definition randint :: "int \<Rightarrow> int \<Rightarrow> rng \<Rightarrow> int \<times> rng" where
  "randint a b g =
     (case g of [] \<Rightarrow> (a, []) | r # g' \<Rightarrow> (a + int (r mod nat (b - a + 1)), g'))"

definition random_unit :: "rng \<Rightarrow> rat \<times> rng" where
  "random_unit g =
     (case g of [] \<Rightarrow> (0, []) | r # g' \<Rightarrow> (of_nat (r mod 2 ^ 53) / 2 ^ 53, g'))"

section \<open>Floating point\<close>

text \<open>
  A Python float is an IEEE 754 binary64 number; a finite one is kept as the rational
  it denotes. \<open>round_double\<close> is the rounding that every float operation and every
  conversion to float applies to its exact result: to the nearest number with a 53-bit
  significand, ties to the even significand, with the fixed spacing \<open>2\<^sup>-\<^sup>1\<^sup>0\<^sup>7\<^sup>4\<close> below
  \<open>2\<^sup>-\<^sup>1\<^sup>0\<^sup>2\<^sup>2\<close>. The result is \<open>None\<close> when the rounded value does not fit the
  format: the operation then yields an infinity or raises \<^verbatim>\<open>OverflowError\<close>.
  \<open>bit_length\<close> is \<^verbatim>\<open>int.bit_length\<close>, \<open>floor_log2\<close> the binary exponent of a positive
  rational and \<open>py_float\<close> the value of a decimal float literal.
\<close>

fun bit_length :: "nat \<Rightarrow> nat" where
  "bit_length n = (if n = 0 then 0 else Suc (bit_length (n div 2)))"

definition pow2 :: "int \<Rightarrow> rat" where
  "pow2 e = (if 0 \<le> e then 2 ^ nat e else 1 / 2 ^ nat (- e))"

definition floor_log2 :: "rat \<Rightarrow> int" where
  "floor_log2 a =
     (if 1 \<le> a then int (bit_length (nat \<lfloor>a\<rfloor>)) - 1
      else - int (bit_length (nat (\<lceil>1 / a\<rceil> - 1))))"

definition round_half_even :: "rat \<Rightarrow> int" where
  "round_half_even q =
     (let m = \<lfloor>q\<rfloor>;
          r = q - of_int m
      in if r < 1 / 2 then m
         else if 1 / 2 < r then m + 1
         else if even m then m else m + 1)"

definition round_double :: "rat \<Rightarrow> rat option" where
  "round_double x =
     (if x = 0 then Some 0
      else
        let a = \<bar>x\<bar>;
            e = max (floor_log2 a) (- 1022);
            quantum = pow2 (e - 52);
            y = of_int (round_half_even (a / quantum)) * quantum
        in if pow2 1024 \<le> y then None else Some (sgn x * y))"

definition py_float :: "rat \<Rightarrow> rat" where
  "py_float x = (case round_double x of Some y \<Rightarrow> y | None \<Rightarrow> x)"

definition py_int_of_float :: "rat \<Rightarrow> int" where
  "py_int_of_float x = (if 0 \<le> x then \<lfloor>x\<rfloor> else \<lceil>x\<rceil>)"

section \<open>Block identifiers and tools\<close>

text \<open>
  \<^verbatim>\<open>str.replace("minecraft:", "")\<close> removes every occurrence of the prefix text, left
  to right and without overlap; \<^verbatim>\<open>str.endswith\<close> compares the tail.
\<close>

function py_remove_all :: "string \<Rightarrow> string \<Rightarrow> string" where
  "py_remove_all sub [] = []"
| "py_remove_all sub (c # cs) =
     (if sub \<noteq> [] \<and> take (length sub) (c # cs) = sub
      then py_remove_all sub (drop (length sub) (c # cs))
      else c # py_remove_all sub cs)"
  by pat_completeness auto
termination
  by (relation "measure (\<lambda>(sub, s). length s)") auto

definition py_endswith :: "string \<Rightarrow> string \<Rightarrow> bool" where
  "py_endswith s suffix \<longleftrightarrow>
     length suffix \<le> length s \<and> drop (length s - length suffix) s = suffix"

definition normalize_block_id :: "string \<Rightarrow> string" where
  "normalize_block_id block_id =
     (if block_id = [] then [] else py_lower (py_remove_all ''minecraft:'' block_id))"

text \<open>
  A tool is the item stack in the player's main hand as the engine reads it:
  \<open>type_id\<close> is what \<^verbatim>\<open>get_item_type_id\<close> returns for it, the three levels are the
  stored enchantment levels that \<^verbatim>\<open>get_enchantment_level\<close> looks up, \<open>meta_access\<close>
  says what reading \<^verbatim>\<open>tool.item_meta\<close> does: it delivers the metadata, it raises
  \<^verbatim>\<open>AttributeError\<close>, or it raises another exception. \<open>max_durability\<close> and \<open>damage\<close>
  are \<open>None\<close> when reading them raises. An empty hand is \<open>None\<close>.

  \<^verbatim>\<open>get_enchantment_level\<close> probes the attribute with \<^verbatim>\<open>hasattr\<close>, which answers
  \<^verbatim>\<open>False\<close> on \<^verbatim>\<open>AttributeError\<close> and lets every other exception through: the result
  \<open>None\<close> says that the call raises. The read that follows and the lookups on the
  metadata are guarded and end in the level found, or 0.
\<close>

datatype meta_access = Meta_ok | Meta_attribute_error | Meta_raises

record tool =
  type_id :: string
  silk_touch :: int
  fortune :: int
  unbreaking :: int
  meta_access :: meta_access
  is_unbreakable :: bool
  max_durability :: "int option"
  damage :: "int option"

definition get_enchantment_level :: "tool option \<Rightarrow> (tool \<Rightarrow> int) \<Rightarrow> int option" where
  "get_enchantment_level t enchantment =
     (case t of
        None \<Rightarrow> Some 0
      | Some item \<Rightarrow>
          (case meta_access item of
             Meta_raises \<Rightarrow> None
           | Meta_attribute_error \<Rightarrow> Some 0
           | Meta_ok \<Rightarrow> if enchantment item > 0 then Some (enchantment item) else Some 0))"

datatype trait = Pickaxe | Axe | Shovel | Hoe | Sword | Shears

definition get_tool_traits :: "tool option \<Rightarrow> trait set" where
  "get_tool_traits t =
     (case t of
        None \<Rightarrow> {}
      | Some item \<Rightarrow>
          let short_id = normalize_block_id (type_id item) in
          (if py_endswith short_id ''_pickaxe'' then {Pickaxe} else {}) \<union>
          (if py_endswith short_id ''_axe'' then {Axe} else {}) \<union>
          (if py_endswith short_id ''_shovel'' then {Shovel} else {}) \<union>
          (if py_endswith short_id ''_hoe'' then {Hoe} else {}) \<union>
          (if py_endswith short_id ''_sword'' then {Sword} else {}) \<union>
          (if short_id = ''shears'' then {Shears} else {}))"

definition required_tool_traits_for_block :: "string \<Rightarrow> trait set option" where
  "required_tool_traits_for_block block_id =
     (let short_id = normalize_block_id block_id in
      if py_endswith short_id ''_log'' \<or> py_endswith short_id ''_stem'' then Some {Axe}
      else if py_endswith short_id ''_leaves'' then Some {Shears, Hoe, Axe}
      else if py_endswith short_id ''_ore'' \<or>
              short_id \<in> set [''ancient_debris'', ''amethyst_cluster'', ''large_amethyst_bud'',
                               ''medium_amethyst_bud'', ''small_amethyst_bud'']
      then Some {Pickaxe}
      else None)"

text \<open>
  \<^verbatim>\<open>is_proper_tool\<close> memoises its answer per block and tool type; the answer is a
  function of that key, so the cache is left out.
\<close>

definition is_proper_tool :: "string \<Rightarrow> tool option \<Rightarrow> bool" where
  "is_proper_tool block_id t =
     (case required_tool_traits_for_block block_id of
        None \<Rightarrow> True
      | Some required_traits \<Rightarrow> required_traits \<inter> get_tool_traits t \<noteq> {})"

section \<open>Reward engine: drops\<close>

definition LAPIS_ORES :: "string list" where
  "LAPIS_ORES = [''lapis_ore'', ''deepslate_lapis_ore'']"

definition REDSTONE_ORES :: "string list" where
  "REDSTONE_ORES = [''redstone_ore'', ''deepslate_redstone_ore'', ''lit_redstone_ore'',
                    ''lit_deepslate_redstone_ore'']"

definition FORTUNE_APPLICABLE :: "string list" where
  "FORTUNE_APPLICABLE =
     [''coal_ore'', ''deepslate_coal_ore'',
      ''iron_ore'', ''deepslate_iron_ore'',
      ''copper_ore'', ''deepslate_copper_ore'',
      ''gold_ore'', ''deepslate_gold_ore'',
      ''redstone_ore'', ''deepslate_redstone_ore'', ''lit_redstone_ore'', ''lit_deepslate_redstone_ore'',
      ''lapis_ore'', ''deepslate_lapis_ore'',
      ''diamond_ore'', ''deepslate_diamond_ore'',
      ''emerald_ore'', ''deepslate_emerald_ore'',
      ''quartz_ore'', ''nether_quartz_ore'',
      ''nether_gold_ore'']"

text \<open>
  \<^verbatim>\<open>get_fortune_drop_amount\<close>. \<open>base_count\<close> is its first part (the value of the
  local \<^verbatim>\<open>base_count\<close>, with the generator after the draw).
\<close>

definition base_count :: "string \<Rightarrow> rng \<Rightarrow> int \<times> rng" where
  "base_count short_id g =
     (if short_id \<in> set LAPIS_ORES then randint 4 9 g
      else if short_id \<in> set REDSTONE_ORES then randint 4 5 g
      else if short_id = ''nether_gold_ore'' then randint 2 6 g
      else (1, g))"

definition get_fortune_drop_amount :: "string \<Rightarrow> int \<Rightarrow> rng \<Rightarrow> int \<times> rng" where
  "get_fortune_drop_amount block_id fortune_level g =
     (let short_id = normalize_block_id block_id;
          (base, g1) = base_count short_id g;
          fortune_applicable = (short_id \<in> set FORTUNE_APPLICABLE)
      in if fortune_level \<le> 0 \<or> \<not> fortune_applicable then (max 1 base, g1)
         else
           let (bonus_roll, g2) = randint (-1) fortune_level g1;
               bonus_roll' = (if bonus_roll < 0 then 0 else bonus_roll)
           in (max 1 (base * (bonus_roll' + 1)), g2))"

definition ore_drops :: "(string \<times> string) list" where
  "ore_drops =
     [(''coal_ore'', ''minecraft:coal''), (''deepslate_coal_ore'', ''minecraft:coal''),
      (''iron_ore'', ''minecraft:raw_iron''), (''deepslate_iron_ore'', ''minecraft:raw_iron''),
      (''copper_ore'', ''minecraft:raw_copper''), (''deepslate_copper_ore'', ''minecraft:raw_copper''),
      (''gold_ore'', ''minecraft:raw_gold''), (''deepslate_gold_ore'', ''minecraft:raw_gold''),
      (''nether_gold_ore'', ''minecraft:gold_nugget''),
      (''redstone_ore'', ''minecraft:redstone''), (''deepslate_redstone_ore'', ''minecraft:redstone''),
      (''lit_redstone_ore'', ''minecraft:redstone''), (''lit_deepslate_redstone_ore'', ''minecraft:redstone''),
      (''lapis_ore'', ''minecraft:lapis_lazuli''), (''deepslate_lapis_ore'', ''minecraft:lapis_lazuli''),
      (''diamond_ore'', ''minecraft:diamond''), (''deepslate_diamond_ore'', ''minecraft:diamond''),
      (''emerald_ore'', ''minecraft:emerald''), (''deepslate_emerald_ore'', ''minecraft:emerald''),
      (''quartz_ore'', ''minecraft:quartz''), (''nether_quartz_ore'', ''minecraft:quartz''),
      (''ancient_debris'', ''minecraft:ancient_debris''),
      (''oak_log'', ''minecraft:oak_log''), (''birch_log'', ''minecraft:birch_log''),
      (''spruce_log'', ''minecraft:spruce_log''), (''jungle_log'', ''minecraft:jungle_log''),
      (''acacia_log'', ''minecraft:acacia_log''), (''dark_oak_log'', ''minecraft:dark_oak_log''),
      (''crimson_stem'', ''minecraft:crimson_stem''), (''warped_stem'', ''minecraft:warped_stem''),
      (''mangrove_log'', ''minecraft:mangrove_log''), (''cherry_log'', ''minecraft:cherry_log''),
      (''oak_leaves'', ''minecraft:oak_leaves''), (''spruce_leaves'', ''minecraft:spruce_leaves''),
      (''birch_leaves'', ''minecraft:birch_leaves''), (''jungle_leaves'', ''minecraft:jungle_leaves''),
      (''acacia_leaves'', ''minecraft:acacia_leaves''), (''dark_oak_leaves'', ''minecraft:dark_oak_leaves''),
      (''mangrove_leaves'', ''minecraft:mangrove_leaves''), (''cherry_leaves'', ''minecraft:cherry_leaves'')]"

definition get_ore_drop :: "string \<Rightarrow> string" where
  "get_ore_drop block_type =
     (let block_id = normalize_block_id block_type
      in case map_of ore_drops block_id of Some item \<Rightarrow> item | None \<Rightarrow> ''minecraft:'' @ block_id)"

definition get_auto_smelt_outputs :: "(string \<times> string) list" where
  "get_auto_smelt_outputs =
     [(''iron_ore'', ''minecraft:iron_ingot''), (''deepslate_iron_ore'', ''minecraft:iron_ingot''),
      (''gold_ore'', ''minecraft:gold_ingot''), (''deepslate_gold_ore'', ''minecraft:gold_ingot''),
      (''nether_gold_ore'', ''minecraft:gold_ingot''),
      (''copper_ore'', ''minecraft:copper_ingot''), (''deepslate_copper_ore'', ''minecraft:copper_ingot''),
      (''ancient_debris'', ''minecraft:netherite_scrap'')]"

definition should_auto_smelt :: "config \<Rightarrow> string \<Rightarrow> int \<Rightarrow> int \<Rightarrow> bool" where
  "should_auto_smelt cfg block_id silk_touch_level fortune_level =
     (if \<not> auto_smelt_enabled cfg then False
      else if silk_touch_level > 0 then False
      else if auto_smelt_require_fortune cfg \<and> fortune_level \<le> 0 then False
      else
        let short_id = normalize_block_id block_id in
        if map_of get_auto_smelt_outputs short_id = None then False
        else if auto_smelt_whitelist cfg \<noteq> {} \<and> short_id \<notin> auto_smelt_whitelist cfg then False
        else True)"

definition sapling_drops :: "(string \<times> string \<times> rat) list" where
  "sapling_drops =
     [(''oak_leaves'', ''minecraft:oak_sapling'', py_float (5 / 100)),
      (''spruce_leaves'', ''minecraft:spruce_sapling'', py_float (5 / 100)),
      (''birch_leaves'', ''minecraft:birch_sapling'', py_float (5 / 100)),
      (''jungle_leaves'', ''minecraft:jungle_sapling'', py_float (25 / 1000)),
      (''acacia_leaves'', ''minecraft:acacia_sapling'', py_float (5 / 100)),
      (''dark_oak_leaves'', ''minecraft:dark_oak_sapling'', py_float (25 / 1000)),
      (''mangrove_leaves'', ''minecraft:mangrove_propagule'', py_float (5 / 100)),
      (''cherry_leaves'', ''minecraft:cherry_sapling'', py_float (5 / 100))]"

definition get_leaf_sapling_drop :: "string \<Rightarrow> string option \<times> rat" where
  "get_leaf_sapling_drop block_id =
     (case map_of sapling_drops (normalize_block_id block_id) of
        Some (item, chance) \<Rightarrow> (Some item, chance)
      | None \<Rightarrow> (None, 0))"

text \<open>
  Rewards are a Python dict from item id to count; it is kept as the list of its
  entries in insertion order (the keys inserted here are distinct). The result is
  \<open>None\<close> when \<^verbatim>\<open>get_enchantment_level\<close> raises: neither function catches it.
\<close>

definition calculate_leaf_rewards ::
  "string \<Rightarrow> tool option \<Rightarrow> rng \<Rightarrow> ((string \<times> int) list \<times> rng) option" where
  "calculate_leaf_rewards block_id t g =
     (let short_id = normalize_block_id block_id in
      case get_enchantment_level t silk_touch of
        None \<Rightarrow> None
      | Some silk_touch_level \<Rightarrow>
          let tool_traits = get_tool_traits t
          in if silk_touch_level > 0 \<or> Shears \<in> tool_traits
             then Some ([(''minecraft:'' @ short_id, 1)], g)
             else
               let (sapling_item, sapling_chance) = get_leaf_sapling_drop short_id;
                   (rewards1, g1) =
                     (case sapling_item of
                        None \<Rightarrow> ([], g)
                      | Some item \<Rightarrow>
                          let (u, g') = random_unit g
                          in if u < sapling_chance then ([(item, 1)], g') else ([], g'));
                   (u2, g2) = random_unit g1
               in if u2 < py_float (2 / 100)
                  then let (n, g3) = randint 1 2 g2
                       in Some (rewards1 @ [(''minecraft:stick'', n)], g3)
                  else Some (rewards1, g2))"

text \<open>
  \<^verbatim>\<open>calculate_block_rewards\<close> returns the drops and an experience value; the drops
  are modelled, the experience value (a float sum) is not.
\<close>

definition calculate_block_rewards ::
  "config \<Rightarrow> string \<Rightarrow> tool option \<Rightarrow> rng \<Rightarrow> ((string \<times> int) list \<times> rng) option" where
  "calculate_block_rewards cfg block_type t g =
     (let short_id = normalize_block_id block_type in
      if py_endswith short_id ''_leaves'' then calculate_leaf_rewards short_id t g
      else
        case get_enchantment_level t silk_touch of
          None \<Rightarrow> None
        | Some silk_touch_level \<Rightarrow>
            (case get_enchantment_level t fortune of
               None \<Rightarrow> None
             | Some fortune_level \<Rightarrow>
                 if silk_touch_level > 0
                 then
                   let silk_block =
                         (if short_id = ''lit_redstone_ore'' then ''redstone_ore''
                          else if short_id = ''lit_deepslate_redstone_ore''
                          then ''deepslate_redstone_ore''
                          else short_id)
                   in Some ([(''minecraft:'' @ silk_block, 1)], g)
                 else
                   let auto_smelt_applied =
                         should_auto_smelt cfg short_id silk_touch_level fortune_level;
                       drop_item =
                         (if auto_smelt_applied
                          then (case map_of get_auto_smelt_outputs short_id of
                                  Some item \<Rightarrow> item | None \<Rightarrow> get_ore_drop short_id)
                          else get_ore_drop short_id);
                       (drop_count, g') = get_fortune_drop_amount short_id fortune_level g
                   in Some ([(drop_item, drop_count)], g')))"

text \<open>
  The drop-count formula in the words of the specification (section 4.4): the base
  count times \<open>bonusRoll + 1\<close> with \<open>bonusRoll = max(0, uniformRandomInt(-1, fortuneLevel))\<close>
  when the block is fortune-applicable and the fortune level is positive, the base count
  otherwise, floored at 1.
\<close>

definition spec_drop_count :: "int \<Rightarrow> int \<Rightarrow> bool \<Rightarrow> int \<Rightarrow> int" where
  "spec_drop_count base uniform_roll applicable fortune_level =
     (if applicable \<and> fortune_level > 0
      then max 1 (base * (max 0 uniform_roll + 1))
      else max 1 base)"

section \<open>Tool durability\<close>

text \<open>
  \<^verbatim>\<open>apply_tool_durability\<close> either leaves the tool as it is, replaces the item in the
  main hand by air (the tool is removed), or stores a new damage value.
  \<open>compute_damage_rolls\<close> is the middle part of the function: stochastic rounding of
  \<^verbatim>\<open>successful_breaks * durability_multiplier\<close> and, when unbreaking is respected, one
  draw per point of damage. The multiplier is a float, so the product, the difference
  and the quotient are float operations: the operands are converted to floats (a float
  is left as it is) and the exact result is rounded by \<open>round_double\<close>. A product
  that does not fit the format makes \<^verbatim>\<open>int(base_damage)\<close> raise. The result \<open>None\<close> says
  that the function raises. \<^verbatim>\<open>int()\<close> truncates towards zero.
\<close>

datatype durability_result = Unchanged | Tool_removed | Damage_set int

fun unbreaking_rolls :: "nat \<Rightarrow> rat \<Rightarrow> rng \<Rightarrow> int \<times> rng" where
  "unbreaking_rolls 0 consume_chance g = (0, g)"
| "unbreaking_rolls (Suc n) consume_chance g =
     (let (u, g1) = random_unit g;
          (applied, g2) = unbreaking_rolls n consume_chance g1
      in ((if u \<le> consume_chance then 1 else 0) + applied, g2))"

definition float_mul :: "rat \<Rightarrow> rat \<Rightarrow> rat option" where
  "float_mul a b =
     (case (round_double a, round_double b) of
        (Some x, Some y) \<Rightarrow> round_double (x * y)
      | _ \<Rightarrow> None)"

definition float_sub :: "rat \<Rightarrow> rat \<Rightarrow> rat option" where
  "float_sub a b =
     (case (round_double a, round_double b) of
        (Some x, Some y) \<Rightarrow> round_double (x - y)
      | _ \<Rightarrow> None)"

definition float_div :: "rat \<Rightarrow> rat \<Rightarrow> rat option" where
  "float_div a b =
     (case (round_double a, round_double b) of
        (Some x, Some y) \<Rightarrow> if y = 0 then None else round_double (x / y)
      | _ \<Rightarrow> None)"

definition compute_damage_rolls :: "config \<Rightarrow> tool \<Rightarrow> int \<Rightarrow> rng \<Rightarrow> (int \<times> rng) option" where
  "compute_damage_rolls cfg item successful_breaks g =
     (case float_mul (of_int successful_breaks) (durability_multiplier cfg) of
        None \<Rightarrow> None
      | Some base_damage \<Rightarrow>
          let damage_rolls0 = py_int_of_float base_damage;
              (u, g1) = random_unit g
          in case float_sub base_damage (of_int damage_rolls0) of
               None \<Rightarrow> None
             | Some fraction \<Rightarrow>
                 let damage_rolls = (if u < fraction then damage_rolls0 + 1 else damage_rolls0)
                 in if damage_rolls \<le> 0 then Some (damage_rolls, g1)
                    else if respect_unbreaking cfg
                    then (case get_enchantment_level (Some item) unbreaking of
                            None \<Rightarrow> None
                          | Some unbreaking_level \<Rightarrow>
                              if unbreaking_level > 0
                              then (case float_div 1 (of_int (unbreaking_level + 1)) of
                                      None \<Rightarrow> None
                                    | Some consume_chance \<Rightarrow>
                                        Some (unbreaking_rolls (nat damage_rolls) consume_chance g1))
                              else Some (damage_rolls, g1))
                    else Some (damage_rolls, g1))"

definition apply_tool_durability ::
  "config \<Rightarrow> tool option \<Rightarrow> int \<Rightarrow> rng \<Rightarrow> (durability_result \<times> rng) option" where
  "apply_tool_durability cfg t successful_breaks g =
     (case t of
        None \<Rightarrow> Some (Unchanged, g)
      | Some item \<Rightarrow>
          if successful_breaks \<le> 0 \<or> durability_multiplier cfg \<le> 0 then Some (Unchanged, g)
          else if meta_access item \<noteq> Meta_ok then Some (Unchanged, g)
          else if is_unbreakable item then Some (Unchanged, g)
          else
            let max_dur = (case max_durability item of None \<Rightarrow> 0 | Some m \<Rightarrow> m) in
            if max_dur \<le> 0 then Some (Unchanged, g)
            else
              case compute_damage_rolls cfg item successful_breaks g of
                None \<Rightarrow> None
              | Some (damage_rolls, g') \<Rightarrow>
                  if damage_rolls \<le> 0 then Some (Unchanged, g')
                  else
                    let current_damage = (case damage item of None \<Rightarrow> 0 | Some d \<Rightarrow> d);
                        new_damage = current_damage + damage_rolls
                    in if new_damage \<ge> max_dur
                       then (if break_on_exceed cfg then Some (Tool_removed, g')
                             else Some (Damage_set (max_dur - 1), g'))
                       else Some (Damage_set new_damage, g'))"

section \<open>The block-break handler\<close>

text \<open>
  \<^verbatim>\<open>on_block_break\<close> reads the event and the player through the host. What it reads
  is gathered in two records. \<open>break_event\<close> holds the event's fields and the player's
  answers that cannot fail in the model; \<open>host\<close> holds the calls made inside the
  \<^verbatim>\<open>try\<close> block that may raise (\<open>None\<close>, or a flag, says that the call raises), among
  them \<^verbatim>\<open>process_vein_mining\<close>, whose summary (successful breaks, experience gained) is
  taken as the host delivers it. \<open>clock\<close> holds the clock readings, one per place where
  the source reads the time. Log lines are not modelled.
\<close>

record break_event =
  is_cancelled :: bool
  has_player :: bool
  has_block :: bool
  ev_player :: player_id
  has_permission_use :: bool
  level_name :: string
  is_sneaking :: bool
  ev_block_type :: string
  ev_block_pos :: pos
  has_permission_block :: bool
  ev_dimension :: "world option"

record host =
  item_in_main_hand :: "tool option option"
  process_vein_mining :: "pos list \<Rightarrow> tool option \<Rightarrow> (int \<times> int) option"
  send_message_raises :: "string \<Rightarrow> bool"
  record_vein_mine_raises :: bool
  send_tip_raises :: bool
  error_notice_raises :: bool

record clock =
  t_blocked :: int
  t_rate :: int
  t_block :: int
  t_cooldown :: int
  t_usage :: int
  t_last_mine :: int
  t_error :: int

text \<open>
  What an invocation leaves behind: the place where it returned (\<open>exit_point\<close>, one
  constructor per \<^verbatim>\<open>return\<close> of the source, in source order, then the normal end of
  the \<^verbatim>\<open>try\<close> block with and without processing, then the \<^verbatim>\<open>except\<close> block),
  whether an exception left the handler, the plugin state, the event's cancelled flag
  and the calls made to the player and to the collaborators, in order.
\<close>

datatype exit_point =
    Exit_cancelled | Exit_invalid_event | Exit_blocked | Exit_no_permission | Exit_toggled_off
  | Exit_rate_limited | Exit_already_processing | Exit_cooldown | Exit_disabled_world
  | Exit_activation | Exit_not_vein_block | Exit_no_block_permission
  | Exit_wrong_tool | Exit_invalid_vein | Exit_abnormal_size | Exit_daily_limit
  | Exit_below_min_size | Exit_too_large | Exit_processed | Exit_error

datatype effect =
    Send_message string | Send_tip | Process_vein "pos list" | Record_stats int | Error_notice

record outcome =
  exit_point :: exit_point
  propagated :: bool
  state :: plugin_state
  event_cancelled :: bool
  effects :: "effect list"

definition timestamps :: "plugin_state \<Rightarrow> player_id \<Rightarrow> int list" where
  "timestamps st pid = (case minute_vein_count st pid of None \<Rightarrow> [] | Some ts \<Rightarrow> ts)"

definition on_cooldown :: "config \<Rightarrow> plugin_state \<Rightarrow> player_id \<Rightarrow> int \<Rightarrow> bool" where
  "on_cooldown cfg st pid current_time \<longleftrightarrow>
     current_time - (case last_vein_mine st pid of None \<Rightarrow> 0 | Some t \<Rightarrow> t) < cooldown_ms cfg"

text \<open>
  The checks before the processing flag is set (from the top of the handler to the
  per-block permission). The result is \<open>None\<close> when every check passes, otherwise the
  exit point with a flag saying that \<^verbatim>\<open>send_message\<close> raised there; then the state and
  the calls made.
\<close>

definition pre_checks ::
  "config \<Rightarrow> plugin_state \<Rightarrow> break_event \<Rightarrow> host \<Rightarrow> clock \<Rightarrow>
     (exit_point \<times> bool) option \<times> plugin_state \<times> effect list" where
  "pre_checks cfg st ev h clk =
     (let pid = ev_player ev in
      if is_cancelled ev then (Some (Exit_cancelled, False), st, [])
      else if \<not> has_player ev \<or> \<not> has_block ev then (Some (Exit_invalid_event, False), st, [])
      else
        case is_player_blocked st pid (t_blocked clk) of (blocked, st1) \<Rightarrow>
        if blocked then (Some (Exit_blocked, False), st1, [])
        else if \<not> has_permission_use ev then (Some (Exit_no_permission, False), st1, [])
        else if pid \<in> disabled_players st1 then (Some (Exit_toggled_off, False), st1, [])
        else
          case check_rate_limits cfg st1 pid (t_rate clk) of (ok, st2) \<Rightarrow>
          if \<not> ok
          then
            let st3 = block_player_temporarily cfg st2 pid (t_block clk) in
            if send_message_raises h ''limit-reached'' then (Some (Exit_rate_limited, True), st3, [])
            else (Some (Exit_rate_limited, False), st3, [Send_message ''limit-reached''])
          else if pid \<in> processing_vein st2 then (Some (Exit_already_processing, False), st2, [])
          else if on_cooldown cfg st2 pid (t_cooldown clk)
          then
            let last_notice = (case last_cooldown_message st2 pid of None \<Rightarrow> 0 | Some t \<Rightarrow> t) in
            if t_cooldown clk - last_notice > 1000
            then
              if send_message_raises h ''cooldown-active'' then (Some (Exit_cooldown, True), st2, [])
              else (Some (Exit_cooldown, False),
                    st2\<lparr>last_cooldown_message := (last_cooldown_message st2)(pid \<mapsto> t_cooldown clk)\<rparr>,
                    [Send_message ''cooldown-active''])
            else (Some (Exit_cooldown, False), st2, [])
          else if level_name ev \<in> set (disabled_worlds cfg) then (Some (Exit_disabled_world, False), st2, [])
          else if \<not> (if activation_mode cfg = ''always'' then True
                      else if activation_mode cfg = ''sneak'' then is_sneaking ev
                      else if activation_mode cfg = ''stand'' then \<not> is_sneaking ev
                      else False)
          then (Some (Exit_activation, False), st2, [])
          else if ev_block_type ev \<notin> vein_blocks cfg then (Some (Exit_not_vein_block, False), st2, [])
          else if per_block_permissions cfg \<and> \<not> has_permission_block ev
          then
            if send_message_raises h ''no-permission'' then (Some (Exit_no_block_permission, True), st2, [])
            else (Some (Exit_no_block_permission, False), st2, [Send_message ''no-permission''])
          else (None, st2, []))"

text \<open>
  The body of the \<^verbatim>\<open>try\<close> block, entered with the processing flag set. The first
  component is \<open>None\<close> when an exception was raised, otherwise the point where the body
  ended; the state, the cancelled flag and the calls are what had been done by then.
  \<^verbatim>\<open>find_vein\<close> fills the offset cache when it gets as far as reading it.
\<close>

definition try_body ::
  "config \<Rightarrow> plugin_state \<Rightarrow> break_event \<Rightarrow> host \<Rightarrow> clock \<Rightarrow>
     exit_point option \<times> plugin_state \<times> bool \<times> effect list" where
  "try_body cfg st ev h clk =
     (let pid = ev_player ev in
      case item_in_main_hand h of
        None \<Rightarrow> (None, st, False, [])
      | Some tool \<Rightarrow>
          if require_correct_tool cfg \<and> \<not> is_proper_tool (ev_block_type ev) tool
          then
            if send_message_raises h ''wrong-tool'' then (None, st, False, [])
            else (Some Exit_wrong_tool, st, False, [Send_message ''wrong-tool''])
          else
            let vein = find_vein cfg (neighbor_offsets st) (Some (ev_block_type ev, ev_block_pos ev)) (ev_dimension ev);
                st1 = (case ev_dimension ev of
                         None \<Rightarrow> st
                       | Some w \<Rightarrow>
                           st\<lparr>neighbor_offsets :=
                                Some (case neighbor_offsets st of
                                        None \<Rightarrow> build_neighbor_offsets cfg | Some ns \<Rightarrow> ns)\<rparr>)
            in if vein = [] then (Some Exit_invalid_vein, st1, False, [])
               else if \<not> int (length vein) \<ge> min_vein_size cfg
               then (Some Exit_below_min_size, st1, False, [])
               else
                 let actual_size = int (length vein) in
                 if actual_size > max_blocks cfg * 2 then (Some Exit_abnormal_size, st1, False, [])
                 else if \<not> check_daily_limits cfg st1 pid (min actual_size (max_blocks cfg))
                 then
                   if send_message_raises h ''limit-reached'' then (None, st1, False, [])
                   else (Some Exit_daily_limit, st1, False, [Send_message ''limit-reached''])
                 else
                   let notify = (actual_size \<ge> max_blocks cfg \<and> max_blocks cfg > 0) in
                   if notify \<and> send_message_raises h ''vein-too-large'' then (None, st1, False, [])
                   else
                     let effs0 = (if notify then [Send_message ''vein-too-large''] else []) in
                     if actual_size \<le> max_blocks cfg
                     then
                       (case process_vein_mining h vein tool of
                          None \<Rightarrow> (None, st1, True, effs0 @ [Process_vein vein])
                        | Some (successful_breaks, xp_gained) \<Rightarrow>
                            if successful_breaks > 0
                            then
                              let st2 = record_vein_usage cfg st1 pid successful_breaks (t_usage clk) in
                              if has_stats_tracker cfg \<and> record_vein_mine_raises h
                              then (None, st2, True, effs0 @ [Process_vein vein])
                              else
                                let effs1 = effs0 @ [Process_vein vein] @
                                      (if has_stats_tracker cfg then [Record_stats successful_breaks] else [])
                                in if send_tip_raises h then (None, st2, True, effs1)
                                   else (Some Exit_processed,
                                         st2\<lparr>last_vein_mine := (last_vein_mine st2)(pid \<mapsto> t_last_mine clk)\<rparr>,
                                         True, effs1 @ [Send_tip])
                            else (Some Exit_processed,
                                  st1\<lparr>last_vein_mine := (last_vein_mine st1)(pid \<mapsto> t_last_mine clk)\<rparr>,
                                  True, effs0 @ [Process_vein vein]))
                     else (Some Exit_too_large,
                           st1\<lparr>last_vein_mine := (last_vein_mine st1)(pid \<mapsto> t_last_mine clk)\<rparr>,
                           False, effs0))"

text \<open>
  The \<^verbatim>\<open>except Exception\<close> block: the player is told at most once per five seconds.
  The first component says whether telling the player raised, in which case the
  exception leaves the handler.
\<close>

definition on_error :: "plugin_state \<Rightarrow> break_event \<Rightarrow> host \<Rightarrow> clock \<Rightarrow> bool \<times> plugin_state \<times> effect list" where
  "on_error st ev h clk =
     (let pid = ev_player ev;
          last_error = (case last_error_message st pid of None \<Rightarrow> 0 | Some t \<Rightarrow> t)
      in if t_error clk - last_error > 5000
         then
           if error_notice_raises h then (True, st, [])
           else (False, st\<lparr>last_error_message := (last_error_message st)(pid \<mapsto> t_error clk)\<rparr>,
                 [Error_notice])
         else (False, st, []))"

text \<open>
  The handler: the checks, then \<^verbatim>\<open>processing_vein.add\<close>, the \<^verbatim>\<open>try\<close> block, the
  \<^verbatim>\<open>except\<close> block when the body raised, and the \<^verbatim>\<open>finally\<close> block, which runs in
  every case.
\<close>

definition on_block_break :: "config \<Rightarrow> plugin_state \<Rightarrow> break_event \<Rightarrow> host \<Rightarrow> clock \<Rightarrow> outcome" where
  "on_block_break cfg st ev h clk =
     (case pre_checks cfg st ev h clk of
        (Some (e, raised), st1, effs) \<Rightarrow>
          \<lparr>exit_point = e, propagated = raised, state = st1,
           event_cancelled = is_cancelled ev, effects = effs\<rparr>
      | (None, st1, effs) \<Rightarrow>
          let pid = ev_player ev;
              st2 = st1\<lparr>processing_vein := insert pid (processing_vein st1)\<rparr>
          in (case try_body cfg st2 ev h clk of
                (Some e, st3, cancelled, effs1) \<Rightarrow>
                  \<lparr>exit_point = e, propagated = False,
                   state = st3\<lparr>processing_vein := processing_vein st3 - {pid}\<rparr>,
                   event_cancelled = cancelled, effects = effs @ effs1\<rparr>
              | (None, st3, cancelled, effs1) \<Rightarrow>
                  (case on_error st3 ev h clk of
                     (raised, st4, effs2) \<Rightarrow>
                       \<lparr>exit_point = Exit_error, propagated = raised,
                        state = st4\<lparr>processing_vein := processing_vein st4 - {pid}\<rparr>,
                        event_cancelled = cancelled, effects = effs @ effs1 @ effs2\<rparr>)))"

text \<open>
  The gate of the specification (section 4.2), in the specification's words: five
  checks in the order temporary block, cooldown, concurrency, rate limit, daily limit;
  the first one that rejects stops the evaluation. It is compared with the handler.
\<close>

datatype gate_check = Temporary_block | Cooldown | Concurrency | Rate_limit | Daily_limit

definition spec_gate ::
  "config \<Rightarrow> plugin_state \<Rightarrow> player_id \<Rightarrow> int \<Rightarrow> int \<Rightarrow> gate_check option" where
  "spec_gate cfg st pid now vein_size =
     (if fst (is_player_blocked st pid now) then Some Temporary_block
      else if on_cooldown cfg st pid now then Some Cooldown
      else if pid \<in> processing_vein st then Some Concurrency
      else if \<not> fst (check_rate_limits cfg st pid now) then Some Rate_limit
      else if \<not> check_daily_limits cfg st pid vein_size then Some Daily_limit
      else None)"

text \<open>The state that the temporary-block check and the rate-limit check leave behind.\<close>

definition gate_state :: "config \<Rightarrow> plugin_state \<Rightarrow> player_id \<Rightarrow> clock \<Rightarrow> plugin_state" where
  "gate_state cfg st pid clk =
     snd (check_rate_limits cfg (snd (is_player_blocked st pid (t_blocked clk))) pid (t_rate clk))"

section \<open>Concrete settings and worlds\<close>

text \<open>
  \<open>default_settings\<close> holds the defaults of \<^verbatim>\<open>__init__\<close> and of the
  \<^verbatim>\<open>config.get\<close> calls, with iron ore as the one vein block. The other values are
  the inputs at which the theorems below are evaluated.
\<close>

definition default_settings :: config where
  "default_settings =
     \<lparr>max_blocks = 64, min_vein_size = 2, cooldown_ms = 100, max_reach_distance = 100,
      mining_pattern = ''adjacent'', pattern_radius = 1, include_diagonals = True,
      vertical_range = 4, horizontal_range = 4, enable_limits = False,
      max_veins_per_day = 1000, max_blocks_per_day = 10000, max_veins_per_minute = 60,
      temporary_block_duration = 5, require_correct_tool = True, per_block_permissions = False,
      activation_mode = ''sneak'', disabled_worlds = [], vein_blocks = {''minecraft:iron_ore''},
      has_stats_tracker = True, auto_smelt_enabled = False, auto_smelt_require_fortune = False,
      auto_smelt_whitelist = {}, durability_multiplier = 1, respect_unbreaking = True,
      break_on_exceed = True\<rparr>"

definition sphere5_settings :: config where
  "sphere5_settings = default_settings\<lparr>mining_pattern := ''sphere'', pattern_radius := 5\<rparr>"

definition iron :: string where
  "iron = ''minecraft:iron_ore''"

definition all_iron :: world where
  "all_iron = (\<lambda>p. Some iron)"

definition two_iron :: world where
  "two_iron = (\<lambda>p. if p = (0, 0, 0) \<or> p = (1, 0, 0) then Some iron else Some ''minecraft:stone'')"

definition lone_iron_above :: world where
  "lone_iron_above = (\<lambda>p. if p = (0, 321, 0) then Some iron else Some ''minecraft:air'')"

definition cube3_reach1 :: config where
  "cube3_reach1 = default_settings\<lparr>max_blocks := 10, max_reach_distance := 1,
     mining_pattern := ''cube'', pattern_radius := 3\<rparr>"

definition iron_pickaxe :: tool where
  "iron_pickaxe = \<lparr>type_id = ''minecraft:iron_pickaxe'', silk_touch = 0, fortune = 0, unbreaking = 0,
     meta_access = Meta_ok, is_unbreakable = False, max_durability = Some 250, damage = Some 248\<rparr>"

definition initial_state :: plugin_state where
  "initial_state =
     \<lparr>blocked_players = Map.empty, minute_vein_count = Map.empty, daily_vein_count = Map.empty,
      daily_block_count = Map.empty, last_vein_mine = Map.empty, last_cooldown_message = Map.empty,
      last_error_message = Map.empty, processing_vein = {}, disabled_players = {},
      neighbor_offsets = None\<rparr>"

definition lone_iron :: world where
  "lone_iron = (\<lambda>p. if p = (0, 0, 0) then Some iron else Some ''minecraft:stone'')"

definition sneaking_break :: break_event where
  "sneaking_break =
     \<lparr>is_cancelled = False, has_player = True, has_block = True, ev_player = ''steve'',
      has_permission_use = True, level_name = ''world'', is_sneaking = True,
      ev_block_type = iron, ev_block_pos = (0, 0, 0), has_permission_block = True,
      ev_dimension = Some two_iron\<rparr>"

definition calm_host :: host where
  "calm_host =
     \<lparr>item_in_main_hand = Some (Some iron_pickaxe),
      process_vein_mining = (\<lambda>vein tool. Some (int (length vein), int (length vein))),
      send_message_raises = (\<lambda>key. False), record_vein_mine_raises = False,
      send_tip_raises = False, error_notice_raises = False\<rparr>"

definition at_time :: "int \<Rightarrow> clock" where
  "at_time t = \<lparr>t_blocked = t, t_rate = t, t_block = t, t_cooldown = t, t_usage = t,
                t_last_mine = t, t_error = t\<rparr>"

definition failing_host :: host where
  "failing_host = calm_host\<lparr>item_in_main_hand := None\<rparr>"

definition lone_break :: break_event where
  "lone_break = sneaking_break\<lparr>ev_dimension := Some lone_iron\<rparr>"

definition strict_settings :: config where
  "strict_settings = default_settings\<lparr>max_veins_per_minute := 1\<rparr>"

definition rushed_state :: plugin_state where
  "rushed_state = initial_state
     \<lparr>last_vein_mine := [''steve'' \<mapsto> 99990], minute_vein_count := [''steve'' \<mapsto> [99990]]\<rparr>"

definition busy_state :: plugin_state where
  "busy_state = initial_state\<lparr>minute_vein_count := [''steve'' \<mapsto> replicate 60 99000]\<rparr>"

definition unlimited_settings :: config where
  "unlimited_settings = default_settings\<lparr>max_veins_per_minute := 0\<rparr>"

section \<open>Temporary block: expiry\<close>

text \<open>
  C9. With a stored unblock time the check answers "blocked" exactly while the clock
  reading is strictly below it, and without a stored time it answers "not blocked".
  The answer is a function of the stored timestamp and the clock reading alone, so a
  reading at or after the timestamp gives "not blocked" at once, whatever happened or
  did not happen in between.
\<close>

theorem is_player_blocked_iff:
  "fst (is_player_blocked st pid now) =
     (case blocked_players st pid of None \<Rightarrow> False | Some unblock_time \<Rightarrow> now < unblock_time)"
  by (simp add: is_player_blocked_def split: option.split)

section \<open>Vein discovery: the search loop\<close>

lemma check_neighbors_Nil: "check_neighbors w bt c [] (V, Q) = (V, Q)"
  by (cases c) simp

lemma check_neighbors_Cons:
  "check_neighbors w bt c (off # nbrs) (V, Q) =
     (if \<not> height_ok (shift c off) then check_neighbors w bt c nbrs (V, Q)
      else if shift c off \<notin> V
      then check_neighbors w bt c nbrs
             (insert (shift c off) V, if w (shift c off) = Some bt then Q @ [shift c off] else Q)
      else check_neighbors w bt c nbrs (V, Q))"
  by (cases c; cases off) (auto simp: shift_def height_ok_def Let_def)

lemma nbr_positions_Nil: "nbr_positions c [] = {}"
  by (simp add: nbr_positions_def)

lemma nbr_positions_Cons:
  "nbr_positions c (off # nbrs) =
     (if height_ok (shift c off) then insert (shift c off) (nbr_positions c nbrs) else nbr_positions c nbrs)"
  by (auto simp: nbr_positions_def)

lemma check_neighbors_visited:
  "fst (check_neighbors w bt c nbrs (V, Q)) = V \<union> nbr_positions c nbrs"
proof (induction nbrs arbitrary: V Q)
  case Nil
  show ?case by (simp add: check_neighbors_Nil nbr_positions_Nil)
next
  case (Cons off nbrs)
  show ?case
    by (simp add: check_neighbors_Cons nbr_positions_Cons Cons.IH insert_absorb)
qed

lemma check_neighbors_queue:
  "\<exists>new. snd (check_neighbors w bt c nbrs (V, Q)) = Q @ new \<and> distinct new \<and>
     set new = {q \<in> nbr_positions c nbrs - V. w q = Some bt}"
proof (induction nbrs arbitrary: V Q)
  case Nil
  show ?case by (simp add: check_neighbors_Nil nbr_positions_Nil)
next
  case (Cons off nbrs)
  let ?q = "shift c off"
  show ?case
  proof (cases "height_ok ?q \<and> ?q \<notin> V")
    case False
    have eq: "check_neighbors w bt c (off # nbrs) (V, Q) = check_neighbors w bt c nbrs (V, Q)"
      using False by (simp add: check_neighbors_Cons)
    have "{q \<in> nbr_positions c (off # nbrs) - V. w q = Some bt} =
          {q \<in> nbr_positions c nbrs - V. w q = Some bt}"
      using False by (auto simp: nbr_positions_Cons)
    then show ?thesis using Cons.IH[of V Q] eq by simp
  next
    case True
    let ?Q1 = "if w ?q = Some bt then Q @ [?q] else Q"
    have eq: "check_neighbors w bt c (off # nbrs) (V, Q) =
              check_neighbors w bt c nbrs (insert ?q V, ?Q1)"
      using True by (simp add: check_neighbors_Cons)
    obtain new where n1: "snd (check_neighbors w bt c nbrs (insert ?q V, ?Q1)) = ?Q1 @ new"
      and n2: "distinct new"
      and n3: "set new = {q \<in> nbr_positions c nbrs - insert ?q V. w q = Some bt}"
      using Cons.IH[of "insert ?q V" ?Q1] by (elim exE conjE)
    show ?thesis
    proof (cases "w ?q = Some bt")
      case T2: True
      have a: "snd (check_neighbors w bt c (off # nbrs) (V, Q)) = Q @ (?q # new)"
        using eq n1 T2 by simp
      have b: "distinct (?q # new)" using n2 n3 by simp
      have N: "nbr_positions c (off # nbrs) = insert ?q (nbr_positions c nbrs)"
        using True by (simp add: nbr_positions_Cons)
      have "insert ?q {q \<in> nbr_positions c nbrs - insert ?q V. w q = Some bt} =
            {q \<in> insert ?q (nbr_positions c nbrs) - V. w q = Some bt}"
        using True T2 by blast
      then have c: "set (?q # new) = {q \<in> nbr_positions c (off # nbrs) - V. w q = Some bt}"
        by (simp add: n3 N)
      show ?thesis using a b c by (intro exI[of _ "?q # new"] conjI)
    next
      case F2: False
      have a: "snd (check_neighbors w bt c (off # nbrs) (V, Q)) = Q @ new"
        using eq n1 F2 by simp
      have N: "nbr_positions c (off # nbrs) = insert ?q (nbr_positions c nbrs)"
        using True by (simp add: nbr_positions_Cons)
      have "{q \<in> nbr_positions c nbrs - insert ?q V. w q = Some bt} =
            {q \<in> insert ?q (nbr_positions c nbrs) - V. w q = Some bt}"
        using F2 by blast
      then have c: "set new = {q \<in> nbr_positions c (off # nbrs) - V. w q = Some bt}"
        by (simp add: n3 N)
      show ?thesis using a n2 c by (intro exI[of _ new] conjI)
    qed
  qed
qed

declare bfs_loop.simps [simp del]

lemma bfs_exit_empty:
  "bfs_loop cfg w bt start nbrs ([], V, vein, it) = ([], V, vein, it)"
  by (simp add: bfs_loop.simps)

lemma bfs_exit_full:
  "\<not> int (length vein) < max_blocks cfg \<Longrightarrow>
   bfs_loop cfg w bt start nbrs (Q, V, vein, it) = (Q, V, vein, it)"
  by (cases Q) (simp_all add: bfs_loop.simps)

lemma bfs_loop_Cons:
  "bfs_loop cfg w bt start nbrs (c # Q, V, vein, it) =
     (if \<not> int (length vein) < max_blocks cfg then (c # Q, V, vein, it)
      else if it + 1 > max_iterations cfg then (c # Q, V, vein, it + 1)
      else if \<not> (in_reach cfg start c \<and> w c = Some bt)
      then bfs_loop cfg w bt start nbrs (Q, V, vein, it + 1)
      else if int (length (List.insert c vein)) \<ge> max_blocks cfg
      then (Q, V, List.insert c vein, it + 1)
      else bfs_loop cfg w bt start nbrs
             (snd (check_neighbors w bt c nbrs (V, Q)), fst (check_neighbors w bt c nbrs (V, Q)),
              List.insert c vein, it + 1))"
  apply (cases c; cases start)
  apply (subst bfs_loop.simps)
  apply (auto simp: in_reach_def Let_def split: prod.splits)
  done

lemma in_reach_start: "in_reach cfg start start"
  by (cases start) (simp add: in_reach_def)

lemma component_nbr:
  "p \<in> component cfg w bt start nbrs \<Longrightarrow> q \<in> nbr_positions p nbrs \<Longrightarrow> w q = Some bt \<Longrightarrow>
   in_reach cfg start q \<Longrightarrow> q \<in> component cfg w bt start nbrs"
  by (auto simp: nbr_positions_def intro: component.step)

lemma fringe_nbr:
  "p \<in> component cfg w bt start nbrs \<Longrightarrow> q \<in> nbr_positions p nbrs \<Longrightarrow> w q = Some bt \<Longrightarrow>
   \<not> in_reach cfg start q \<Longrightarrow> q \<in> fringe cfg w bt start nbrs"
  by (auto simp: nbr_positions_def fringe_def)

lemma finite_nbr_positions: "finite (nbr_positions c nbrs)"
proof -
  have "nbr_positions c nbrs \<subseteq> shift c ` set nbrs"
    by (auto simp: nbr_positions_def)
  then show ?thesis by (rule finite_subset) simp
qed

lemma finite_fringe:
  assumes "finite (component cfg w bt start nbrs)"
  shows "finite (fringe cfg w bt start nbrs)"
proof -
  have "fringe cfg w bt start nbrs \<subseteq>
        (\<lambda>(p, off). shift p off) ` (component cfg w bt start nbrs \<times> set nbrs)"
    by (auto simp: fringe_def)
  then show ?thesis by (rule finite_subset) (simp add: assms)
qed

lemma bfs_inv_init: "bfs_inv cfg w bt start nbrs ([start], {start}, [], 0)"
proof -
  have "{q \<in> {start}. q = start \<or> w q = Some bt} = {start}" by auto
  then show ?thesis by (simp add: bfs_inv_def)
qed

lemma bfs_inv_done:
  assumes "bfs_inv cfg w bt start nbrs ([], V, vein, it)"
  shows "component cfg w bt start nbrs \<subseteq> set vein"
proof
  fix x assume "x \<in> component cfg w bt start nbrs"
  then show "x \<in> set vein"
  proof (induction rule: component.induct)
    case start
    then show ?case using assms in_reach_start[of cfg start]
      by (auto simp: bfs_inv_def)
  next
    case (step p off)
    have "shift p off \<in> nbr_positions p nbrs"
      using step by (auto simp: nbr_positions_def)
    then have "shift p off \<in> V" using assms step.IH by (auto simp: bfs_inv_def)
    then show ?case using assms step by (auto simp: bfs_inv_def)
  qed
qed

lemma full_vein_eq:
  assumes "set vein \<subseteq> C" "distinct vein" "finite C" "card C \<le> length vein"
  shows "set vein = C"
proof -
  have "card (set vein) = length vein" using assms(2) by (simp add: distinct_card)
  then show ?thesis using assms by (intro card_seteq) auto
qed

lemma bfs_inv_head:
  assumes "bfs_inv cfg w bt start nbrs (c # Q, V, vein, it)"
    and "in_reach cfg start c" and "w c = Some bt"
  shows "c \<in> component cfg w bt start nbrs" and "c \<notin> set vein"
proof -
  have cV: "c \<in> V" using assms(1) by (auto simp: bfs_inv_def)
  then have "c = start \<or> (\<exists>p \<in> component cfg w bt start nbrs. c \<in> nbr_positions p nbrs)"
    using assms(1) by (auto simp: bfs_inv_def)
  then show "c \<in> component cfg w bt start nbrs"
    using assms(2,3) by (auto intro: component.start component_nbr)
  show "c \<notin> set vein" using assms(1) by (auto simp: bfs_inv_def)
qed

lemma bfs_inv_skip:
  assumes "bfs_inv cfg w bt start nbrs (c # Q, V, vein, it)"
    and "\<not> (in_reach cfg start c \<and> w c = Some bt)"
  shows "bfs_inv cfg w bt start nbrs (Q, V, vein, it + 1)"
  using assms unfolding bfs_inv_def by auto

lemma bfs_inv_expand:
  assumes inv: "bfs_inv cfg w bt start nbrs (c # Q, V, vein, it)"
    and reach: "in_reach cfg start c" and match: "w c = Some bt"
  shows "bfs_inv cfg w bt start nbrs
           (snd (check_neighbors w bt c nbrs (V, Q)), fst (check_neighbors w bt c nbrs (V, Q)),
            c # vein, it + 1)"
proof -
  let ?C = "component cfg w bt start nbrs"
  let ?N = "nbr_positions c nbrs"
  let ?V' = "fst (check_neighbors w bt c nbrs (V, Q))"
  let ?Q' = "snd (check_neighbors w bt c nbrs (V, Q))"
  have V': "?V' = V \<union> ?N" by (rule check_neighbors_visited)
  obtain new where Q': "?Q' = Q @ new" and dn: "distinct new"
    and sn: "set new = {q \<in> ?N - V. w q = Some bt}"
    using check_neighbors_queue[of w bt c nbrs V Q] by (elim exE conjE)
  have cC: "c \<in> ?C" and cv: "c \<notin> set vein"
    using bfs_inv_head[OF inv reach match] by simp_all
  have i1: "distinct (vein @ c # Q)" and i2: "set vein \<union> set (c # Q) \<subseteq> V"
    and i3: "finite V" and i4: "start \<in> V" and i5: "set vein \<subseteq> ?C"
    and i6: "\<forall>q \<in> set (c # Q). q = start \<or> w q = Some bt"
    and i7: "\<forall>p \<in> set vein. nbr_positions p nbrs \<subseteq> V"
    and i8: "\<forall>q \<in> V. w q = Some bt \<and> in_reach cfg start q \<longrightarrow> q \<in> set vein \<union> set (c # Q)"
    and i9: "\<forall>q \<in> V. q = start \<or> (\<exists>p \<in> ?C. q \<in> nbr_positions p nbrs)"
    and i10: "it + int (length (c # Q)) = int (card {q \<in> V. q = start \<or> w q = Some bt})"
    using inv unfolding bfs_inv_def prod.case by blast+
  have newV: "set new \<inter> V = {}" using sn by auto
  have j1: "distinct ((c # vein) @ ?Q')"
    using i1 i2 dn newV unfolding Q' by auto
  have j2: "set (c # vein) \<union> set ?Q' \<subseteq> ?V'"
    using i2 sn unfolding Q' V' by auto
  have j3: "finite ?V'" using i3 finite_nbr_positions unfolding V' by simp
  have j4: "start \<in> ?V'" using i4 unfolding V' by simp
  have j5: "set (c # vein) \<subseteq> ?C" using i5 cC by simp
  have j6: "\<forall>q \<in> set ?Q'. q = start \<or> w q = Some bt"
    using i6 sn unfolding Q' by auto
  have j7: "\<forall>p \<in> set (c # vein). nbr_positions p nbrs \<subseteq> ?V'"
    using i7 unfolding V' by auto
  have j8: "\<forall>q \<in> ?V'. w q = Some bt \<and> in_reach cfg start q \<longrightarrow> q \<in> set (c # vein) \<union> set ?Q'"
  proof (intro ballI impI)
    fix q assume q: "q \<in> ?V'" and m: "w q = Some bt \<and> in_reach cfg start q"
    show "q \<in> set (c # vein) \<union> set ?Q'"
    proof (cases "q \<in> V")
      case True
      then have "q \<in> set vein \<union> set (c # Q)" using i8 m by blast
      then show ?thesis unfolding Q' by auto
    next
      case False
      then have "q \<in> ?N - V" using q unfolding V' by auto
      then have "q \<in> set new" using sn m by auto
      then show ?thesis unfolding Q' by auto
    qed
  qed
  have j9: "\<forall>q \<in> ?V'. q = start \<or> (\<exists>p \<in> ?C. q \<in> nbr_positions p nbrs)"
    using i9 cC unfolding V' by auto
  have E: "{q \<in> ?V'. q = start \<or> w q = Some bt} = {q \<in> V. q = start \<or> w q = Some bt} \<union> set new"
    using i4 sn unfolding V' by auto
  have disj: "{q \<in> V. q = start \<or> w q = Some bt} \<inter> set new = {}" using newV by auto
  have "card ({q \<in> V. q = start \<or> w q = Some bt} \<union> set new) =
        card {q \<in> V. q = start \<or> w q = Some bt} + card (set new)"
    using i3 disj by (intro card_Un_disjoint) auto
  then have "int (card {q \<in> ?V'. q = start \<or> w q = Some bt}) =
             int (card {q \<in> V. q = start \<or> w q = Some bt}) + int (length new)"
    using E dn by (simp add: distinct_card)
  then have j10: "it + 1 + int (length ?Q') = int (card {q \<in> ?V'. q = start \<or> w q = Some bt})"
    using i10 unfolding Q' by simp
  show ?thesis
    unfolding bfs_inv_def prod.case using j1 j2 j3 j4 j5 j6 j7 j8 j9 j10 by blast
qed

lemma bfs_inv_budget:
  assumes inv: "bfs_inv cfg w bt start nbrs (Q, V, vein, it)"
    and fin: "finite (component cfg w bt start nbrs)"
  shows "it + int (length Q) \<le>
         int (card (insert start (component cfg w bt start nbrs \<union> fringe cfg w bt start nbrs)))"
proof -
  let ?C = "component cfg w bt start nbrs"
  let ?F = "fringe cfg w bt start nbrs"
  have i9: "\<forall>q \<in> V. q = start \<or> (\<exists>p \<in> ?C. q \<in> nbr_positions p nbrs)"
    and i10: "it + int (length Q) = int (card {q \<in> V. q = start \<or> w q = Some bt})"
    using inv unfolding bfs_inv_def prod.case by blast+
  have sub: "{q \<in> V. q = start \<or> w q = Some bt} \<subseteq> insert start (?C \<union> ?F)"
  proof
    fix q assume "q \<in> {q \<in> V. q = start \<or> w q = Some bt}"
    then have qV: "q \<in> V" and qm: "q = start \<or> w q = Some bt" by auto
    show "q \<in> insert start (?C \<union> ?F)"
    proof (cases "q = start")
      case True then show ?thesis by simp
    next
      case False
      then obtain p where p: "p \<in> ?C" "q \<in> nbr_positions p nbrs" using i9 qV by blast
      have m: "w q = Some bt" using qm False by simp
      show ?thesis
        using component_nbr[OF p m] fringe_nbr[OF p m] by (cases "in_reach cfg start q") auto
    qed
  qed
  have "finite (insert start (?C \<union> ?F))" using fin finite_fringe[OF fin] by simp
  then have "card {q \<in> V. q = start \<or> w q = Some bt} \<le> card (insert start (?C \<union> ?F))"
    using sub by (intro card_mono)
  then show ?thesis using i10 by simp
qed

lemma bfs_loop_complete:
  assumes fin: "finite (component cfg w bt start nbrs)"
    and cardC: "int (card (component cfg w bt start nbrs)) \<le> max_blocks cfg"
    and budget: "int (card (insert start (component cfg w bt start nbrs \<union> fringe cfg w bt start nbrs)))
                   \<le> max_iterations cfg"
    and inv: "bfs_inv cfg w bt start nbrs (Q, V, vein, it)"
  shows "set (vein_of (bfs_loop cfg w bt start nbrs (Q, V, vein, it))) = component cfg w bt start nbrs"
  using inv
proof (induction "nat (max_iterations cfg + 1 - it)" arbitrary: Q V vein it rule: less_induct)
  case less
  let ?C = "component cfg w bt start nbrs"
  note inv = less.prems
  have veinC: "set vein \<subseteq> ?C" and dist: "distinct vein"
    using inv unfolding bfs_inv_def prod.case by auto
  show ?case
  proof (cases Q)
    case Nil
    have "?C \<subseteq> set vein" using bfs_inv_done inv unfolding Nil by blast
    then show ?thesis using veinC by (simp add: Nil bfs_exit_empty vein_of_def)
  next
    case (Cons c rest)
    show ?thesis
    proof (cases "int (length vein) < max_blocks cfg")
      case False
      then have "card ?C \<le> length vein" using cardC by linarith
      then have "set vein = ?C" using full_vein_eq[OF veinC dist fin] by simp
      then show ?thesis using False by (simp add: bfs_exit_full vein_of_def)
    next
      case room: True
      have "it + int (length Q) \<le> max_iterations cfg"
        using bfs_inv_budget[OF inv fin] budget by linarith
      then have nocap: "it + 1 \<le> max_iterations cfg" by (simp add: Cons)
      then have dec: "nat (max_iterations cfg + 1 - (it + 1)) < nat (max_iterations cfg + 1 - it)"
        by linarith
      show ?thesis
      proof (cases "in_reach cfg start c \<and> w c = Some bt")
        case False
        have inv': "bfs_inv cfg w bt start nbrs (rest, V, vein, it + 1)"
          using bfs_inv_skip inv False unfolding Cons by blast
        have "bfs_loop cfg w bt start nbrs (Q, V, vein, it) =
              bfs_loop cfg w bt start nbrs (rest, V, vein, it + 1)"
          using room nocap False by (simp add: Cons bfs_loop_Cons)
        then show ?thesis using less.hyps[OF dec inv'] by simp
      next
        case good: True
        have cC: "c \<in> ?C" and cv: "c \<notin> set vein"
          using bfs_inv_head inv good unfolding Cons by blast+
        have ins: "List.insert c vein = c # vein" using cv by (simp add: List.insert_def)
        show ?thesis
        proof (cases "int (length (c # vein)) \<ge> max_blocks cfg")
          case True
          then have "card ?C \<le> length (c # vein)" using cardC by linarith
          moreover have "set (c # vein) \<subseteq> ?C" using veinC cC by simp
          moreover have "distinct (c # vein)" using dist cv by simp
          ultimately have "set (c # vein) = ?C" using full_vein_eq fin by blast
          moreover have "bfs_loop cfg w bt start nbrs (Q, V, vein, it) = (rest, V, c # vein, it + 1)"
            using room nocap good True by (simp add: Cons bfs_loop_Cons ins)
          ultimately show ?thesis by (simp add: vein_of_def)
        next
          case False
          let ?cn = "check_neighbors w bt c nbrs (V, rest)"
          have inv': "bfs_inv cfg w bt start nbrs (snd ?cn, fst ?cn, c # vein, it + 1)"
            using bfs_inv_expand inv good unfolding Cons by blast
          have "bfs_loop cfg w bt start nbrs (Q, V, vein, it) =
                bfs_loop cfg w bt start nbrs (snd ?cn, fst ?cn, c # vein, it + 1)"
            using room nocap good False by (simp add: Cons bfs_loop_Cons ins)
          then show ?thesis using less.hyps[OF dec inv'] by simp
        qed
      qed
    qed
  qed
qed

lemma nbr_positions_height: "q \<in> nbr_positions c nbrs \<Longrightarrow> height_ok q"
  by (simp add: nbr_positions_def)

lemma check_neighbors_queue_height:
  assumes "\<forall>q \<in> set Q. q = start \<or> height_ok q"
  shows "\<forall>q \<in> set (snd (check_neighbors w bt c nbrs (V, Q))). q = start \<or> height_ok q"
proof -
  obtain new where Q': "snd (check_neighbors w bt c nbrs (V, Q)) = Q @ new"
    and sn: "set new = {q \<in> nbr_positions c nbrs - V. w q = Some bt}"
    using check_neighbors_queue[of w bt c nbrs V Q] by (elim exE conjE)
  have "\<forall>q \<in> set new. height_ok q" using sn nbr_positions_height by blast
  then show ?thesis using assms unfolding Q' by auto
qed

lemma length_insert_le: "length (List.insert c vein) \<le> Suc (length vein)"
  by (simp add: List.insert_def)

lemma bfs_loop_sound:
  assumes "bfs_sound cfg w bt start (Q, V, vein, it)"
  shows "bfs_sound cfg w bt start (bfs_loop cfg w bt start nbrs (Q, V, vein, it))"
  using assms
proof (induction "nat (max_iterations cfg + 1 - it)" arbitrary: Q V vein it rule: less_induct)
  case less
  note snd = less.prems
  have s1: "vein = [] \<or> int (length vein) \<le> max_blocks cfg"
    and s2: "\<forall>p \<in> set vein. in_reach cfg start p \<and> w p = Some bt \<and> (p = start \<or> height_ok p)"
    and s3: "\<forall>q \<in> set Q. q = start \<or> height_ok q"
    using snd unfolding bfs_sound_def prod.case by blast+
  show ?case
  proof (cases Q)
    case Nil
    then show ?thesis using snd by (simp add: bfs_exit_empty)
  next
    case (Cons c rest)
    have c3: "c = start \<or> height_ok c" and r3: "\<forall>q \<in> set rest. q = start \<or> height_ok q"
      using s3 unfolding Cons by simp_all
    show ?thesis
    proof (cases "int (length vein) < max_blocks cfg")
      case False
      then show ?thesis using snd by (simp add: bfs_exit_full)
    next
      case room: True
      show ?thesis
      proof (cases "it + 1 > max_iterations cfg")
        case True
        have "bfs_sound cfg w bt start (Q, V, vein, it + 1)"
          using s1 s2 s3 unfolding bfs_sound_def prod.case by blast
        then show ?thesis using room True by (simp add: Cons bfs_loop_Cons)
      next
        case False
        then have nocap: "it + 1 \<le> max_iterations cfg" by simp
        then have dec: "nat (max_iterations cfg + 1 - (it + 1)) < nat (max_iterations cfg + 1 - it)"
          by linarith
        show ?thesis
        proof (cases "in_reach cfg start c \<and> w c = Some bt")
          case False
          have snd': "bfs_sound cfg w bt start (rest, V, vein, it + 1)"
            using s1 s2 r3 unfolding bfs_sound_def prod.case by blast
          have "bfs_loop cfg w bt start nbrs (Q, V, vein, it) =
                bfs_loop cfg w bt start nbrs (rest, V, vein, it + 1)"
            using room nocap False by (simp add: Cons bfs_loop_Cons)
          then show ?thesis using less.hyps[OF dec snd'] by simp
        next
          case good: True
          let ?v = "List.insert c vein"
          have v1: "?v = [] \<or> int (length ?v) \<le> max_blocks cfg"
            using room length_insert_le[of c vein] by linarith
          have v2: "\<forall>p \<in> set ?v. in_reach cfg start p \<and> w p = Some bt \<and> (p = start \<or> height_ok p)"
            using s2 good c3 by auto
          show ?thesis
          proof (cases "int (length ?v) \<ge> max_blocks cfg")
            case True
            have "bfs_sound cfg w bt start (rest, V, ?v, it + 1)"
              using v1 v2 r3 unfolding bfs_sound_def prod.case by blast
            then show ?thesis using room nocap good True by (simp add: Cons bfs_loop_Cons)
          next
            case False
            let ?cn = "check_neighbors w bt c nbrs (V, rest)"
            have q3: "\<forall>q \<in> set (snd ?cn). q = start \<or> height_ok q"
              using check_neighbors_queue_height[OF r3] .
            have snd': "bfs_sound cfg w bt start (snd ?cn, fst ?cn, ?v, it + 1)"
              using v1 v2 q3 unfolding bfs_sound_def prod.case by blast
            have "bfs_loop cfg w bt start nbrs (Q, V, vein, it) =
                  bfs_loop cfg w bt start nbrs (snd ?cn, fst ?cn, ?v, it + 1)"
              using room nocap good False by (simp add: Cons bfs_loop_Cons)
            then show ?thesis using less.hyps[OF dec snd'] by simp
          qed
        qed
      qed
    qed
  qed
qed

lemma bfs_sound_init: "bfs_sound cfg w bt start ([start], {start}, [], 0)"
  by (simp add: bfs_sound_def)

lemma find_vein_sound:
  "let vein = find_vein cfg cache (Some (bt, start)) (Some w) in
     (vein = [] \<or> int (length vein) \<le> max_blocks cfg) \<and>
     (\<forall>p \<in> set vein. in_reach cfg start p \<and> w p = Some bt \<and> (p = start \<or> height_ok p))"
proof -
  let ?nbrs = "case cache of None \<Rightarrow> build_neighbor_offsets cfg | Some ns \<Rightarrow> ns"
  obtain Q V vein it where r: "bfs_loop cfg w bt start ?nbrs ([start], {start}, [], 0) = (Q, V, vein, it)"
    by (cases "bfs_loop cfg w bt start ?nbrs ([start], {start}, [], 0)") auto
  have "bfs_sound cfg w bt start (Q, V, vein, it)"
    using bfs_loop_sound[OF bfs_sound_init, of cfg w bt start ?nbrs] r by simp
  moreover have "find_vein cfg cache (Some (bt, start)) (Some w) = vein"
    using r by (simp add: find_vein_def Let_def)
  ultimately show ?thesis unfolding bfs_sound_def prod.case Let_def by simp
qed

lemma check_neighbors_queue_exact:
  "distinct (map (shift c) nbrs) \<Longrightarrow> shift c ` set nbrs \<inter> V = {} \<Longrightarrow>
   snd (check_neighbors w bt c nbrs (V, Q)) =
     Q @ filter (\<lambda>q. w q = Some bt) (filter height_ok (map (shift c) nbrs))"
proof (induction nbrs arbitrary: V Q)
  case Nil
  show ?case by (simp add: check_neighbors_Nil)
next
  case (Cons off nbrs)
  have d: "distinct (map (shift c) nbrs)" and nin: "shift c off \<notin> shift c ` set nbrs"
    and nV: "shift c off \<notin> V" and dV: "shift c ` set nbrs \<inter> V = {}"
    using Cons.prems by auto
  have dV': "shift c ` set nbrs \<inter> insert (shift c off) V = {}" using dV nin by auto
  show ?case
    using Cons.IH[OF d dV] Cons.IH[OF d dV'] nV
    by (simp add: check_neighbors_Cons)
qed

lemma bfs_skip_run:
  "\<forall>q \<in> set junk. \<not> in_reach cfg start q \<Longrightarrow> int (length vein) < max_blocks cfg \<Longrightarrow>
   it + int (length junk) \<le> max_iterations cfg \<Longrightarrow>
   bfs_loop cfg w bt start nbrs (junk @ rest, V, vein, it) =
     bfs_loop cfg w bt start nbrs (rest, V, vein, it + int (length junk))"
proof (induction junk arbitrary: it)
  case Nil
  show ?case by simp
next
  case (Cons j junk)
  have "bfs_loop cfg w bt start nbrs ((j # junk) @ rest, V, vein, it) =
        bfs_loop cfg w bt start nbrs (junk @ rest, V, vein, it + 1)"
    using Cons.prems by (simp add: bfs_loop_Cons)
  also have "\<dots> = bfs_loop cfg w bt start nbrs (rest, V, vein, it + 1 + int (length junk))"
    using Cons.prems by (intro Cons.IH) auto
  finally show ?case by (simp add: add.assoc)
qed

lemma component_in_reach:
  "p \<in> component cfg w bt start nbrs \<Longrightarrow> in_reach cfg start p"
  by (induction rule: component.induct) (simp_all add: in_reach_start)

lemma component_matches:
  "p \<in> component cfg w bt start nbrs \<Longrightarrow> w p = Some bt"
  by (induction rule: component.induct) simp_all

lemma component_empty:
  assumes "w start \<noteq> Some bt"
  shows "component cfg w bt start nbrs = {}"
proof -
  have "p \<in> component cfg w bt start nbrs \<Longrightarrow> False" for p
    by (induction rule: component.induct) (use assms in simp_all)
  then show ?thesis by auto
qed

lemma sq_le_one: "(x::int) * x \<le> 1 \<Longrightarrow> x = -1 \<or> x = 0 \<or> x = 1"
proof -
  assume a: "x * x \<le> 1"
  have "x\<^sup>2 \<le> 1\<^sup>2" using a by (simp add: power2_eq_square)
  then have "\<bar>x\<bar> \<le> \<bar>1\<bar>" by (simp only: abs_le_square_iff)
  then show ?thesis by auto
qed

lemma unit_ball:
  assumes "(x::int) * x + y * y + z * z \<le> 1"
  shows "(x, y, z) \<in> {(0,0,0), (1,0,0), (-1,0,0), (0,1,0), (0,-1,0), (0,0,1), (0,0,-1)}"
proof -
  have nx: "0 \<le> x * x" and ny: "0 \<le> y * y" and nz: "0 \<le> z * z" by simp_all
  have "x * x \<le> 1" using assms ny nz by linarith
  then have x: "x = -1 \<or> x = 0 \<or> x = 1" by (rule sq_le_one)
  have "y * y \<le> 1" using assms nx nz by linarith
  then have y: "y = -1 \<or> y = 0 \<or> y = 1" by (rule sq_le_one)
  have "z * z \<le> 1" using assms nx ny by linarith
  then have z: "z = -1 \<or> z = 0 \<or> z = 1" by (rule sq_le_one)
  show ?thesis using x y z assms by (elim disjE) simp_all
qed

lemma distinct_concat_map:
  "distinct xs \<Longrightarrow> (\<And>x. x \<in> set xs \<Longrightarrow> distinct (f x)) \<Longrightarrow>
   (\<And>x y. x \<in> set xs \<Longrightarrow> y \<in> set xs \<Longrightarrow> x \<noteq> y \<Longrightarrow> set (f x) \<inter> set (f y) = {}) \<Longrightarrow>
   distinct (concat (map f xs))"
  by (induction xs) auto

lemma set_triple1:
  "set [(x, y, z). x \<leftarrow> xs, y \<leftarrow> ys, z \<leftarrow> zs, P x y z] =
     {(x, y, z). x \<in> set xs \<and> y \<in> set ys \<and> z \<in> set zs \<and> P x y z}"
  by auto

lemma set_triple2:
  "set [(x, y, z). x \<leftarrow> xs, y \<leftarrow> ys, z \<leftarrow> zs, P x y z, Q x y z] =
     {(x, y, z). x \<in> set xs \<and> y \<in> set ys \<and> z \<in> set zs \<and> P x y z \<and> Q x y z}"
  by auto

lemma set_pair2:
  "set [(x, 0::int, z). x \<leftarrow> xs, z \<leftarrow> zs, P x z, Q x z] =
     {(x, y, z). x \<in> set xs \<and> y = 0 \<and> z \<in> set zs \<and> P x z \<and> Q x z}"
  by auto

lemma set_single1:
  "set [(0::int, y, 0::int). y \<leftarrow> ys, P y] = {(x, y, z). x = 0 \<and> z = 0 \<and> y \<in> set ys \<and> P y}"
  by auto

lemma distinct_triple1:
  "distinct xs \<Longrightarrow> distinct ys \<Longrightarrow> distinct zs \<Longrightarrow>
   distinct [(x, y, z). x \<leftarrow> xs, y \<leftarrow> ys, z \<leftarrow> zs, P x y z]"
  by (auto intro!: distinct_concat_map)

lemma distinct_triple2:
  "distinct xs \<Longrightarrow> distinct ys \<Longrightarrow> distinct zs \<Longrightarrow>
   distinct [(x, y, z). x \<leftarrow> xs, y \<leftarrow> ys, z \<leftarrow> zs, P x y z, Q x y z]"
  by (auto intro!: distinct_concat_map)

lemma distinct_pair2:
  "distinct xs \<Longrightarrow> distinct zs \<Longrightarrow>
   distinct [(x, 0::int, z). x \<leftarrow> xs, z \<leftarrow> zs, P x z, Q x z]"
  by (auto intro!: distinct_concat_map)

lemma distinct_single1:
  "distinct ys \<Longrightarrow> distinct [(0::int, y, 0::int). y \<leftarrow> ys, P y]"
  by (auto intro!: distinct_concat_map)

lemma distinct_py_range: "distinct (py_range a b)"
  by (simp add: py_range_def)

lemma set_py_range: "set (py_range (- r) (r + 1)) = {- r..r}"
  by (simp add: py_range_def)

lemma distinct_offsets_before_cap: "distinct (offsets_before_cap cfg)"
  unfolding offsets_before_cap_def Let_def
  by (simp only: distinct_triple1 distinct_triple2 distinct_pair2 distinct_single1
        distinct_py_range if_True if_False split: if_split, simp)

lemma set_offsets_before_cap_raw:
  "set (offsets_before_cap cfg) =
     (if mining_pattern cfg = ''vertical'' then
        {(x, y, z). x = 0 \<and> z = 0 \<and> y \<in> {- vertical_range cfg..vertical_range cfg} \<and> y \<noteq> 0}
      else if mining_pattern cfg = ''horizontal'' then
        {(x, y, z). x \<in> {- horizontal_range cfg..horizontal_range cfg} \<and> y = 0 \<and>
           z \<in> {- horizontal_range cfg..horizontal_range cfg} \<and> \<not> (x = 0 \<and> z = 0) \<and>
           \<not> (\<not> include_diagonals cfg \<and> \<bar>x\<bar> + \<bar>z\<bar> \<noteq> 1)}
      else if mining_pattern cfg = ''cube'' then
        {(x, y, z). x \<in> {- pattern_radius cfg..pattern_radius cfg} \<and>
           y \<in> {- pattern_radius cfg..pattern_radius cfg} \<and>
           z \<in> {- pattern_radius cfg..pattern_radius cfg} \<and> \<not> (x = 0 \<and> y = 0 \<and> z = 0)}
      else if mining_pattern cfg = ''sphere'' then
        {(x, y, z). x \<in> {- pattern_radius cfg..pattern_radius cfg} \<and>
           y \<in> {- pattern_radius cfg..pattern_radius cfg} \<and>
           z \<in> {- pattern_radius cfg..pattern_radius cfg} \<and> \<not> (x = 0 \<and> y = 0 \<and> z = 0) \<and>
           x * x + y * y + z * z \<le> pattern_radius cfg * pattern_radius cfg}
      else
        {(x, y, z). x \<in> {- NEIGHBOR_RANGE..NEIGHBOR_RANGE} \<and> y \<in> {- NEIGHBOR_RANGE..NEIGHBOR_RANGE} \<and>
           z \<in> {- NEIGHBOR_RANGE..NEIGHBOR_RANGE} \<and> \<not> (x = 0 \<and> y = 0 \<and> z = 0) \<and>
           \<not> (\<not> include_diagonals cfg \<and> \<bar>x\<bar> + \<bar>y\<bar> + \<bar>z\<bar> \<noteq> 1)})"
  unfolding offsets_before_cap_def Let_def
  by (simp only: if_distrib[of set] set_triple1 set_triple2 set_pair2 set_single1 set_py_range)

lemma zero_notin_offsets_before_cap: "(0, 0, 0) \<notin> set (offsets_before_cap cfg)"
  by (simp add: set_offsets_before_cap_raw)

lemma set_offsets_before_cap:
  assumes "valid_config cfg"
  shows "set (offsets_before_cap cfg) = pattern_rule cfg"
proof -
  have p: "mining_pattern cfg = ''adjacent'' \<or> mining_pattern cfg = ''cube'' \<or>
           mining_pattern cfg = ''sphere'' \<or> mining_pattern cfg = ''vertical'' \<or>
           mining_pattern cfg = ''horizontal''"
    using assms by (simp add: valid_config_def)
  show ?thesis
    using p unfolding set_offsets_before_cap_raw pattern_rule_def NEIGHBOR_RANGE_def
    by (elim disjE) (simp_all, blast+)
qed

lemma build_neighbor_offsets_take:
  "build_neighbor_offsets cfg = take 512 (offsets_before_cap cfg)"
  by (simp add: build_neighbor_offsets_def Let_def)

lemma distinct_build_neighbor_offsets: "distinct (build_neighbor_offsets cfg)"
  by (simp add: build_neighbor_offsets_take distinct_offsets_before_cap)

lemma zero_notin_build_neighbor_offsets: "(0, 0, 0) \<notin> set (build_neighbor_offsets cfg)"
  using zero_notin_offsets_before_cap[of cfg] in_set_takeD[of "(0,0,0)" 512 "offsets_before_cap cfg"]
  by (auto simp: build_neighbor_offsets_take)

section \<open>Neighbor pattern builder: the capped rule\<close>

text \<open>
  C8 (as amended). For every valid configuration the builder's output has no zero
  offset, no duplicate and at most 512 entries; it is the first 512 entries of the list
  the per-pattern loops build, that list enumerates exactly the offsets of the
  per-pattern rule, so the output is always a subset of the rule and is exactly the
  rule whenever the rule has at most 512 offsets.
\<close>

theorem build_neighbor_offsets_capped_rule:
  assumes "valid_config cfg"
  shows "(0, 0, 0) \<notin> set (build_neighbor_offsets cfg) \<and>
         distinct (build_neighbor_offsets cfg) \<and>
         length (build_neighbor_offsets cfg) \<le> 512 \<and>
         build_neighbor_offsets cfg = take 512 (offsets_before_cap cfg) \<and>
         set (offsets_before_cap cfg) = pattern_rule cfg \<and>
         set (build_neighbor_offsets cfg) \<subseteq> pattern_rule cfg \<and>
         (card (pattern_rule cfg) \<le> 512 \<longrightarrow> set (build_neighbor_offsets cfg) = pattern_rule cfg)"
proof -
  have s: "set (offsets_before_cap cfg) = pattern_rule cfg"
    using assms by (rule set_offsets_before_cap)
  have sub: "set (build_neighbor_offsets cfg) \<subseteq> pattern_rule cfg"
    using set_take_subset[of 512 "offsets_before_cap cfg"] s
    by (simp add: build_neighbor_offsets_take)
  have c: "card (pattern_rule cfg) = length (offsets_before_cap cfg)"
    using s distinct_card[OF distinct_offsets_before_cap[of cfg]] by simp
  have eq: "card (pattern_rule cfg) \<le> 512 \<longrightarrow> set (build_neighbor_offsets cfg) = pattern_rule cfg"
    using c s by (simp add: build_neighbor_offsets_take)
  show ?thesis
    using zero_notin_build_neighbor_offsets distinct_build_neighbor_offsets sub eq s
    by (simp add: build_neighbor_offsets_take)
qed

lemma valid_sphere5: "valid_config sphere5_settings"
  by (simp add: valid_config_def sphere5_settings_def default_settings_def)

lemma valid_default: "valid_config default_settings"
  by (simp add: valid_config_def default_settings_def)

text \<open>
  The default configuration (adjacent, diagonals included) is valid and its 26 offsets
  are exactly the rule.
\<close>

theorem build_neighbor_offsets_capped_rule_witness:
  "valid_config default_settings \<and>
   (0, 0, 0) \<notin> set (build_neighbor_offsets default_settings) \<and>
   distinct (build_neighbor_offsets default_settings) \<and>
   length (build_neighbor_offsets default_settings) = 26 \<and>
   card (pattern_rule default_settings) = 26 \<and>
   set (build_neighbor_offsets default_settings) = pattern_rule default_settings"
proof -
  have len: "length (build_neighbor_offsets default_settings) = 26"
    by code_simp
  have t: "build_neighbor_offsets default_settings = offsets_before_cap default_settings"
    using len by (simp add: build_neighbor_offsets_def Let_def split: if_splits)
  note r = build_neighbor_offsets_capped_rule[OF valid_default]
  have c: "card (pattern_rule default_settings) = 26"
    using r distinct_card[OF distinct_offsets_before_cap[of default_settings]] len t by simp
  have le: "card (pattern_rule default_settings) \<le> 512" using c by simp
  have eq: "set (build_neighbor_offsets default_settings) = pattern_rule default_settings"
    using r le by blast
  have z: "(0, 0, 0) \<notin> set (build_neighbor_offsets default_settings)"
    and d: "distinct (build_neighbor_offsets default_settings)"
    using r by blast+
  show ?thesis using valid_default z d len c eq by blast
qed

text \<open>
  C8 as stated fails: for the valid configuration "sphere, radius 5" the rule has 514
  offsets, the cap cuts the last two, and the offset (5, 0, 0), of squared norm 25, is
  not in the output.
\<close>

theorem build_neighbor_offsets_sphere5_counterexample:
  "valid_config sphere5_settings \<and>
   (5, 0, 0) \<in> pattern_rule sphere5_settings \<and>
   (5, 0, 0) \<notin> set (build_neighbor_offsets sphere5_settings)"
proof -
  have a: "(5, 0, 0) \<in> pattern_rule sphere5_settings"
    by (simp add: pattern_rule_def sphere5_settings_def default_settings_def)
  have b: "(5, 0, 0) \<notin> set (build_neighbor_offsets sphere5_settings)"
    by code_simp
  show ?thesis using valid_sphere5 a b by simp
qed

lemma max_blocks_load_config: "1 \<le> max_blocks (load_config raw)"
  by (simp add: load_config_def UNLIMITED_MAX_BLOCKS_def DEFAULT_MAX_BLOCKS_def)

lemma load_config_limits:
  "0 \<le> max_veins_per_day (load_config raw)"
  "0 \<le> max_blocks_per_day (load_config raw)"
  "0 \<le> max_veins_per_minute (load_config raw)"
  "1 \<le> temporary_block_duration (load_config raw)"
  by (simp_all add: load_config_def)

lemma load_config_keeps_zero_limit:
  "max_veins_per_minute raw = 0 \<Longrightarrow> max_veins_per_minute (load_config raw) = 0"
  by (simp add: load_config_def)

lemma find_vein_no_dimension: "find_vein cfg cache start_block None = []"
  by (simp add: find_vein_def split: option.splits prod.splits)

section \<open>Vein discovery: bounds on the result\<close>

text \<open>
  C2 (as amended). For every loaded configuration, start block and world, the vein has
  at most \<open>max_blocks\<close> members, every member is within the reach distance of the
  start (squared Euclidean distance at most the reach squared), and every member other
  than the start position lies within the world's vertical bounds. The start position
  itself is enqueued without a height check.
\<close>

theorem find_vein_bounds:
  "int (length (find_vein (load_config raw) cache (Some (bt, start)) dimension))
     \<le> max_blocks (load_config raw) \<and>
   (\<forall>p \<in> set (find_vein (load_config raw) cache (Some (bt, start)) dimension).
      in_reach (load_config raw) start p \<and> (p \<noteq> start \<longrightarrow> height_ok p))"
proof (cases dimension)
  case None
  then show ?thesis using max_blocks_load_config[of raw] by (simp add: find_vein_no_dimension)
next
  case (Some w)
  let ?v = "find_vein (load_config raw) cache (Some (bt, start)) (Some w)"
  have a: "?v = [] \<or> int (length ?v) \<le> max_blocks (load_config raw)"
    and b: "\<forall>p \<in> set ?v. in_reach (load_config raw) start p \<and> w p = Some bt \<and> (p = start \<or> height_ok p)"
    using find_vein_sound[of "load_config raw" cache bt start w] unfolding Let_def by blast+
  have "int (length ?v) \<le> max_blocks (load_config raw)"
    using a max_blocks_load_config[of raw] by auto
  then show ?thesis using b unfolding Some by blast
qed

lemma two_iron_vein:
  "find_vein (load_config default_settings) None (Some (iron, (0, 0, 0))) (Some two_iron) =
     [(1, 0, 0), (0, 0, 0)]"
  by code_simp

text \<open>Two adjacent iron blocks under the default settings: both are found.\<close>

theorem find_vein_bounds_witness:
  "find_vein (load_config default_settings) None (Some (iron, (0, 0, 0))) (Some two_iron) =
     [(1, 0, 0), (0, 0, 0)] \<and>
   2 \<le> max_blocks (load_config default_settings) \<and>
   in_reach (load_config default_settings) (0, 0, 0) (1, 0, 0) \<and>
   height_ok (1, 0, 0)"
  using find_vein_bounds[of default_settings None iron "(0, 0, 0)" "Some two_iron"]
  by (simp add: two_iron_vein)

text \<open>
  C2 as stated fails for the start block: a start block at y = 321, above
  \<open>MAX_WORLD_HEIGHT\<close>, whose position still holds the start type is a member of the vein.
\<close>

theorem find_vein_start_height_counterexample:
  "find_vein (load_config default_settings) None (Some (iron, (0, 321, 0))) (Some lone_iron_above) =
     [(0, 321, 0)] \<and>
   \<not> height_ok (0, 321, 0)"
  by code_simp

lemma max_iterations_ge: "100 \<le> max_iterations cfg"
  by (simp add: max_iterations_def)

section \<open>Vein discovery: completeness below the cap\<close>

text \<open>
  C3 (as amended). Let the component be the set of positions reachable from the start
  through blocks of the start's type, by offsets of the active pattern, within the
  height bounds and the reach distance. If the component is finite with at most
  \<open>max_blocks\<close> members, and the component together with the same-type blocks its
  members touch beyond the reach distance has at most \<open>max(100, 10 * max_blocks)\<close>
  members (so that the iteration cap is not hit), then the search returns exactly the
  component.
\<close>

theorem find_vein_complete_within_budget:
  assumes fin: "finite (component cfg w bt start (build_neighbor_offsets cfg))"
    and size: "int (card (component cfg w bt start (build_neighbor_offsets cfg))) \<le> max_blocks cfg"
    and budget: "int (card (component cfg w bt start (build_neighbor_offsets cfg) \<union>
                             fringe cfg w bt start (build_neighbor_offsets cfg)))
                   \<le> max_iterations cfg"
  shows "set (find_vein cfg None (Some (bt, start)) (Some w)) =
           component cfg w bt start (build_neighbor_offsets cfg)"
proof -
  let ?nbrs = "build_neighbor_offsets cfg"
  let ?C = "component cfg w bt start ?nbrs"
  let ?F = "fringe cfg w bt start ?nbrs"
  have b': "int (card (insert start (?C \<union> ?F))) \<le> max_iterations cfg"
  proof (cases "w start = Some bt")
    case True
    then have "start \<in> ?C" by (rule component.start)
    then have "insert start (?C \<union> ?F) = ?C \<union> ?F" by auto
    then show ?thesis using budget by simp
  next
    case False
    then have "?C = {}" by (rule component_empty)
    then have "?F = {}" by (simp add: fringe_def)
    then show ?thesis using \<open>?C = {}\<close> max_iterations_ge[of cfg] by simp
  qed
  have "set (vein_of (bfs_loop cfg w bt start ?nbrs ([start], {start}, [], 0))) = ?C"
    using bfs_loop_complete[OF fin size b' bfs_inv_init] .
  moreover have "find_vein cfg None (Some (bt, start)) (Some w) =
                 vein_of (bfs_loop cfg w bt start ?nbrs ([start], {start}, [], 0))"
    by (simp add: find_vein_def vein_of_def Let_def)
  ultimately show ?thesis by simp
qed

lemma two_iron_component_sub:
  "component cfg two_iron iron start nbrs \<union> fringe cfg two_iron iron start nbrs
     \<subseteq> {(0, 0, 0), (1, 0, 0)}"
proof
  fix p assume "p \<in> component cfg two_iron iron start nbrs \<union> fringe cfg two_iron iron start nbrs"
  then have "two_iron p = Some iron"
    using component_matches[of p cfg two_iron iron start nbrs] by (auto simp: fringe_def)
  then show "p \<in> {(0, 0, 0), (1, 0, 0)}"
    by (simp add: two_iron_def iron_def split: if_splits)
qed

text \<open>Two adjacent iron blocks under the default settings satisfy every hypothesis.\<close>

theorem find_vein_complete_within_budget_witness:
  "finite (component default_settings two_iron iron (0, 0, 0) (build_neighbor_offsets default_settings)) \<and>
   int (card (component default_settings two_iron iron (0, 0, 0) (build_neighbor_offsets default_settings)))
     \<le> max_blocks default_settings \<and>
   int (card (component default_settings two_iron iron (0, 0, 0) (build_neighbor_offsets default_settings) \<union>
              fringe default_settings two_iron iron (0, 0, 0) (build_neighbor_offsets default_settings)))
     \<le> max_iterations default_settings \<and>
   set (find_vein default_settings None (Some (iron, (0, 0, 0))) (Some two_iron)) =
     component default_settings two_iron iron (0, 0, 0) (build_neighbor_offsets default_settings)"
proof -
  let ?nbrs = "build_neighbor_offsets default_settings"
  let ?C = "component default_settings two_iron iron (0, 0, 0) ?nbrs"
  let ?F = "fringe default_settings two_iron iron (0, 0, 0) ?nbrs"
  have sub: "?C \<union> ?F \<subseteq> {(0, 0, 0), (1, 0, 0)}" by (rule two_iron_component_sub)
  have finU: "finite (?C \<union> ?F)" using sub by (rule finite_subset) simp
  then have fin: "finite ?C" by simp
  have "card (?C \<union> ?F) \<le> card {(0::int, 0::int, 0::int), (1, 0, 0)}"
    using sub by (intro card_mono) simp_all
  then have cU: "card (?C \<union> ?F) \<le> 2" by simp
  have "card ?C \<le> card (?C \<union> ?F)" using finU by (intro card_mono) simp_all
  then have cC: "card ?C \<le> 2" using cU by linarith
  have size: "int (card ?C) \<le> max_blocks default_settings"
    using cC by (simp add: default_settings_def)
  have budget: "int (card (?C \<union> ?F)) \<le> max_iterations default_settings"
    using cU by (simp add: default_settings_def max_iterations_def)
  show ?thesis
    using find_vein_complete_within_budget[OF fin size budget] fin size budget by blast
qed

lemma shift_origin: "shift (0, 0, 0) off = off"
  by (cases off) (simp add: shift_def)

lemma cube3_first_offsets_beyond_reach:
  "list_all (\<lambda>q. \<not> in_reach cube3_reach1 (0, 0, 0) q) (take 99 (build_neighbor_offsets cube3_reach1))"
  by code_simp

lemma cube3_more_offsets: "drop 99 (build_neighbor_offsets cube3_reach1) \<noteq> []"
  by code_simp

lemma cube3_offsets_height:
  "list_all height_ok (build_neighbor_offsets cube3_reach1)"
  by code_simp

lemma cube3_unit_offset: "(1, 0, 0) \<in> set (build_neighbor_offsets cube3_reach1)"
  by code_simp

lemma cube3_vein:
  "find_vein cube3_reach1 None (Some (iron, (0, 0, 0))) (Some all_iron) = [(0, 0, 0)]"
proof -
  let ?cfg = cube3_reach1
  let ?nbrs = "build_neighbor_offsets ?cfg"
  let ?cn = "check_neighbors all_iron iron (0, 0, 0) ?nbrs ({(0, 0, 0)}, [])"
  have mb: "max_blocks ?cfg = 10" and mi: "max_iterations ?cfg = 100"
    by (simp_all add: cube3_reach1_def default_settings_def max_iterations_def)
  have r0: "in_reach ?cfg (0, 0, 0) (0, 0, 0)" by (rule in_reach_start)
  have m0: "all_iron (0, 0, 0) = Some iron" by (simp add: all_iron_def)
  have "shift (0, 0, 0) = (\<lambda>off. off)" by (rule ext) (rule shift_origin)
  then have maps: "map (shift (0, 0, 0)) ?nbrs = ?nbrs" by simp
  have d: "distinct (map (shift (0, 0, 0)) ?nbrs)"
    unfolding maps by (rule distinct_build_neighbor_offsets)
  have dj: "shift (0, 0, 0) ` set ?nbrs \<inter> {(0, 0, 0)} = {}"
    using zero_notin_build_neighbor_offsets[of ?cfg] by (simp add: shift_origin)
  have fh: "filter height_ok ?nbrs = ?nbrs"
    using cube3_offsets_height by (simp add: list_all_iff)
  have q: "snd ?cn = ?nbrs"
    using check_neighbors_queue_exact[OF d dj, of all_iron iron "[]"]
    by (simp add: maps fh all_iron_def)
  have step1: "bfs_loop ?cfg all_iron iron (0, 0, 0) ?nbrs ([(0, 0, 0)], {(0, 0, 0)}, [], 0) =
               bfs_loop ?cfg all_iron iron (0, 0, 0) ?nbrs (?nbrs, fst ?cn, [(0, 0, 0)], 1)"
    using r0 m0 by (simp add: bfs_loop_Cons mb mi q)
  have junk: "\<forall>q \<in> set (take 99 ?nbrs). \<not> in_reach ?cfg (0, 0, 0) q"
    using cube3_first_offsets_beyond_reach by (simp add: list_all_iff)
  have "99 < length ?nbrs" using cube3_more_offsets by simp
  then have len: "min (length ?nbrs) 99 = 99" by simp
  have "bfs_loop ?cfg all_iron iron (0, 0, 0) ?nbrs (take 99 ?nbrs @ drop 99 ?nbrs, fst ?cn, [(0, 0, 0)], 1) =
        bfs_loop ?cfg all_iron iron (0, 0, 0) ?nbrs (drop 99 ?nbrs, fst ?cn, [(0, 0, 0)], 1 + int (length (take 99 ?nbrs)))"
    using junk by (intro bfs_skip_run) (simp_all add: mb mi len)
  then have step2: "bfs_loop ?cfg all_iron iron (0, 0, 0) ?nbrs (?nbrs, fst ?cn, [(0, 0, 0)], 1) =
        bfs_loop ?cfg all_iron iron (0, 0, 0) ?nbrs (drop 99 ?nbrs, fst ?cn, [(0, 0, 0)], 100)"
    by (simp add: len)
  obtain r rs where rest: "drop 99 ?nbrs = r # rs"
    using cube3_more_offsets by (cases "drop 99 ?nbrs") auto
  have step3: "bfs_loop ?cfg all_iron iron (0, 0, 0) ?nbrs (drop 99 ?nbrs, fst ?cn, [(0, 0, 0)], 100) =
               (r # rs, fst ?cn, [(0, 0, 0)], 101)"
    unfolding rest by (simp add: bfs_loop_Cons mb mi)
  show ?thesis
    by (simp add: find_vein_def Let_def step1 step2 step3)
qed

text \<open>
  C3 as stated fails when the iteration cap is hit. With pattern "cube", radius 3,
  reach distance 1 and \<open>max_blocks = 10\<close> in a world of iron only, the component of the
  origin has at most 7 members and contains (1, 0, 0); the first 99 neighbours the
  search enqueues lie beyond the reach distance, the cap of 100 iterations stops the
  loop, and the vein is the start block alone.
\<close>

theorem find_vein_iteration_cap_counterexample:
  "finite (component cube3_reach1 all_iron iron (0, 0, 0) (build_neighbor_offsets cube3_reach1)) \<and>
   int (card (component cube3_reach1 all_iron iron (0, 0, 0) (build_neighbor_offsets cube3_reach1)))
     \<le> max_blocks cube3_reach1 \<and>
   (1, 0, 0) \<in> component cube3_reach1 all_iron iron (0, 0, 0) (build_neighbor_offsets cube3_reach1) \<and>
   find_vein cube3_reach1 None (Some (iron, (0, 0, 0))) (Some all_iron) = [(0, 0, 0)] \<and>
   set (find_vein cube3_reach1 None (Some (iron, (0, 0, 0))) (Some all_iron)) \<noteq>
     component cube3_reach1 all_iron iron (0, 0, 0) (build_neighbor_offsets cube3_reach1)"
proof -
  let ?nbrs = "build_neighbor_offsets cube3_reach1"
  let ?C = "component cube3_reach1 all_iron iron (0, 0, 0) ?nbrs"
  let ?B = "{(0,0,0), (1,0,0), (-1,0,0), (0,1,0), (0,-1,0), (0,0,1), (0,0,-1)} :: pos set"
  have sub: "?C \<subseteq> ?B"
  proof
    fix p assume "p \<in> ?C"
    then have "in_reach cube3_reach1 (0, 0, 0) p" by (rule component_in_reach)
    then show "p \<in> ?B"
      using unit_ball[of "fst p" "fst (snd p)" "snd (snd p)"]
      by (cases p) (simp add: in_reach_def cube3_reach1_def default_settings_def)
  qed
  have fin: "finite ?C" using sub by (rule finite_subset) simp
  have "card ?C \<le> card ?B" using sub by (intro card_mono) simp_all
  then have "card ?C \<le> 7" by simp
  then have size: "int (card ?C) \<le> max_blocks cube3_reach1"
    by (simp add: cube3_reach1_def default_settings_def)
  have s: "(0, 0, 0) \<in> ?C" by (rule component.start) (simp add: all_iron_def)
  have "shift (0, 0, 0) (1, 0, 0) \<in> ?C"
    using s cube3_unit_offset
    by (rule component.step)
       (simp_all add: shift_def height_ok_def MIN_WORLD_HEIGHT_def MAX_WORLD_HEIGHT_def all_iron_def
          in_reach_def cube3_reach1_def default_settings_def)
  then have one: "(1, 0, 0) \<in> ?C" by (simp add: shift_origin)
  have ne: "set (find_vein cube3_reach1 None (Some (iron, (0, 0, 0))) (Some all_iron)) \<noteq> ?C"
  proof
    assume "set (find_vein cube3_reach1 None (Some (iron, (0, 0, 0))) (Some all_iron)) = ?C"
    then have "(1, 0, 0) \<in> set (find_vein cube3_reach1 None (Some (iron, (0, 0, 0))) (Some all_iron))"
      using one by simp
    then show False by (simp add: cube3_vein)
  qed
  show ?thesis using fin size one cube3_vein ne by blast
qed

lemma randint_range:
  assumes "a \<le> b"
  shows "a \<le> fst (randint a b g) \<and> fst (randint a b g) \<le> b"
proof (cases g)
  case Nil
  then show ?thesis using assms by (simp add: randint_def)
next
  case (Cons r g')
  have pos: "0 < nat (b - a + 1)" using assms by simp
  have "r mod nat (b - a + 1) < nat (b - a + 1)" using pos by (rule mod_less_divisor)
  then have "int (r mod nat (b - a + 1)) < b - a + 1" using assms by linarith
  then show ?thesis by (simp add: randint_def Cons)
qed

lemma base_count_bounds:
  "(short_id \<notin> set LAPIS_ORES \<union> set REDSTONE_ORES \<union> {''nether_gold_ore''} \<longrightarrow>
      fst (base_count short_id g) = 1) \<and>
   (short_id \<in> set LAPIS_ORES \<longrightarrow> 4 \<le> fst (base_count short_id g) \<and> fst (base_count short_id g) \<le> 9) \<and>
   (short_id \<in> set REDSTONE_ORES \<longrightarrow> 4 \<le> fst (base_count short_id g) \<and> fst (base_count short_id g) \<le> 5) \<and>
   (short_id = ''nether_gold_ore'' \<longrightarrow> 2 \<le> fst (base_count short_id g) \<and> fst (base_count short_id g) \<le> 6) \<and>
   1 \<le> fst (base_count short_id g)"
  using randint_range[of 4 9 g] randint_range[of 4 5 g] randint_range[of 2 6 g]
  by (auto simp: base_count_def LAPIS_ORES_def REDSTONE_ORES_def)

lemma get_fortune_drop_amount_spec:
  "fst (get_fortune_drop_amount block_id fortune_level g) =
     spec_drop_count (fst (base_count (normalize_block_id block_id) g))
       (fst (randint (-1) fortune_level (snd (base_count (normalize_block_id block_id) g))))
       (normalize_block_id block_id \<in> set FORTUNE_APPLICABLE) fortune_level"
  by (auto simp: get_fortune_drop_amount_def spec_drop_count_def Let_def split: prod.splits)

lemma spec_drop_count_ge: "1 \<le> spec_drop_count base roll applicable fortune_level"
  by (simp add: spec_drop_count_def)

lemma get_enchantment_level_returns:
  assumes "get_enchantment_level t enchantment = Some level"
  shows "\<exists>level'. get_enchantment_level t enchantment' = Some level'"
  using assms by (auto simp: get_enchantment_level_def split: option.splits meta_access.splits)

lemma calculate_block_rewards_ore:
  assumes "\<not> py_endswith (normalize_block_id block_type) ''_leaves''"
    and "get_enchantment_level t silk_touch = Some silk_touch_level"
    and "silk_touch_level \<le> 0"
    and "get_enchantment_level t fortune = Some fortune_level"
  shows "\<exists>drop_item. map_option fst (calculate_block_rewards cfg block_type t g) =
           Some [(drop_item, fst (get_fortune_drop_amount (normalize_block_id block_type)
                                    fortune_level g))]"
  using assms by (simp add: calculate_block_rewards_def Let_def split: prod.splits)

lemma calculate_block_rewards_raises:
  assumes "meta_access item = Meta_raises"
  shows "calculate_block_rewards cfg block_type (Some item) g = None"
  using assms
  by (simp add: calculate_block_rewards_def calculate_leaf_rewards_def get_enchantment_level_def
        Let_def)

lemma base_count_draw:
  "(short_id \<in> set LAPIS_ORES \<longrightarrow> fst (base_count short_id g) = fst (randint 4 9 g)) \<and>
   (short_id \<in> set REDSTONE_ORES \<longrightarrow> fst (base_count short_id g) = fst (randint 4 5 g)) \<and>
   (short_id = ''nether_gold_ore'' \<longrightarrow> fst (base_count short_id g) = fst (randint 2 6 g))"
  by (auto simp: base_count_def LAPIS_ORES_def REDSTONE_ORES_def)

section \<open>Reward engine: the fortune drop count\<close>

text \<open>
  C6. For every block that is not a leaf block, mined without silk touch (the tool's
  silk touch level is read and is not positive), the fortune level is read too and the
  rewards are one item whose count is given by the specification's formula: the base
  count times \<open>max(0, roll) + 1\<close>, with \<open>roll\<close> drawn uniformly from
  \<open>-1..fortuneLevel\<close>, when the block is fortune-applicable and the fortune level is
  positive, and the base count otherwise, floored at 1 in both cases. The base count
  follows the fixed table: a draw from 4..9 for lapis ores, from 4..5 for redstone ores,
  from 2..6 for nether gold ore, and 1 for every other block. The drop count is at
  least 1.
\<close>

theorem fortune_drop_count:
  assumes "\<not> py_endswith (normalize_block_id block_type) ''_leaves''"
    and "get_enchantment_level t silk_touch = Some silk_touch_level"
    and "silk_touch_level \<le> 0"
  shows "\<exists>fortune_level. get_enchantment_level t fortune = Some fortune_level \<and>
          (let short_id = normalize_block_id (normalize_block_id block_type);
               base = fst (base_count short_id g);
               uniform_roll = fst (randint (-1) fortune_level (snd (base_count short_id g)));
               drop_count = spec_drop_count base uniform_roll
                              (short_id \<in> set FORTUNE_APPLICABLE) fortune_level
           in (\<exists>drop_item. map_option fst (calculate_block_rewards cfg block_type t g) =
                              Some [(drop_item, drop_count)]) \<and>
              (0 < fortune_level \<longrightarrow> -1 \<le> uniform_roll \<and> uniform_roll \<le> fortune_level) \<and>
              (short_id \<notin> set LAPIS_ORES \<union> set REDSTONE_ORES \<union> {''nether_gold_ore''} \<longrightarrow> base = 1) \<and>
              (short_id \<in> set LAPIS_ORES \<longrightarrow> base = fst (randint 4 9 g) \<and> 4 \<le> base \<and> base \<le> 9) \<and>
              (short_id \<in> set REDSTONE_ORES \<longrightarrow> base = fst (randint 4 5 g) \<and> 4 \<le> base \<and> base \<le> 5) \<and>
              (short_id = ''nether_gold_ore'' \<longrightarrow>
                 base = fst (randint 2 6 g) \<and> 2 \<le> base \<and> base \<le> 6) \<and>
              1 \<le> base \<and> 1 \<le> drop_count)"
proof -
  let ?sid = "normalize_block_id (normalize_block_id block_type)"
  obtain f where f: "get_enchantment_level t fortune = Some f"
    using get_enchantment_level_returns[OF assms(2)] by blast
  have a: "\<exists>drop_item. map_option fst (calculate_block_rewards cfg block_type t g) =
             Some [(drop_item, spec_drop_count (fst (base_count ?sid g))
                 (fst (randint (-1) f (snd (base_count ?sid g))))
                 (?sid \<in> set FORTUNE_APPLICABLE) f)]"
    using calculate_block_rewards_ore[OF assms f, where cfg = cfg and g = g]
    by (simp add: get_fortune_drop_amount_spec)
  have b: "0 < f \<longrightarrow> -1 \<le> fst (randint (-1) f (snd (base_count ?sid g))) \<and>
             fst (randint (-1) f (snd (base_count ?sid g))) \<le> f"
    using randint_range[of "-1" f] by simp
  have c: "(let short_id = ?sid;
               base = fst (base_count short_id g);
               uniform_roll = fst (randint (-1) f (snd (base_count short_id g)));
               drop_count = spec_drop_count base uniform_roll
                              (short_id \<in> set FORTUNE_APPLICABLE) f
           in (\<exists>drop_item. map_option fst (calculate_block_rewards cfg block_type t g) =
                              Some [(drop_item, drop_count)]) \<and>
              (0 < f \<longrightarrow> -1 \<le> uniform_roll \<and> uniform_roll \<le> f) \<and>
              (short_id \<notin> set LAPIS_ORES \<union> set REDSTONE_ORES \<union> {''nether_gold_ore''} \<longrightarrow> base = 1) \<and>
              (short_id \<in> set LAPIS_ORES \<longrightarrow> base = fst (randint 4 9 g) \<and> 4 \<le> base \<and> base \<le> 9) \<and>
              (short_id \<in> set REDSTONE_ORES \<longrightarrow> base = fst (randint 4 5 g) \<and> 4 \<le> base \<and> base \<le> 5) \<and>
              (short_id = ''nether_gold_ore'' \<longrightarrow>
                 base = fst (randint 2 6 g) \<and> 2 \<le> base \<and> base \<le> 6) \<and>
              1 \<le> base \<and> 1 \<le> drop_count)"
    unfolding Let_def
    using a b base_count_bounds[of ?sid g] base_count_draw[of ?sid g] spec_drop_count_ge by blast
  show ?thesis using f c by blast
qed

lemma lapis_fortune3_rewards:
  "calculate_block_rewards default_settings ''minecraft:lapis_ore''
     (Some (iron_pickaxe\<lparr>fortune := 3\<rparr>)) [3, 4] = Some ([(''minecraft:lapis_lazuli'', 28)], [])"
  by code_simp

lemma lapis_base_count: "base_count ''lapis_ore'' [3, 4] = (7, [4])"
  by code_simp

text \<open>
  Lapis ore, fortune 3, a base draw of 7 from 4..9 and a roll of 3: twenty-eight lapis
  lazuli.
\<close>

theorem fortune_drop_count_witness:
  "\<not> py_endswith (normalize_block_id ''minecraft:lapis_ore'') ''_leaves'' \<and>
   get_enchantment_level (Some (iron_pickaxe\<lparr>fortune := 3\<rparr>)) silk_touch = Some 0 \<and>
   get_enchantment_level (Some (iron_pickaxe\<lparr>fortune := 3\<rparr>)) fortune = Some 3 \<and>
   normalize_block_id (normalize_block_id ''minecraft:lapis_ore'') \<in> set LAPIS_ORES \<and>
   base_count ''lapis_ore'' [3, 4] = (7, [4]) \<and>
   randint (-1) 3 [4] = (3, []) \<and>
   spec_drop_count 7 3 True 3 = 28 \<and>
   calculate_block_rewards default_settings ''minecraft:lapis_ore''
     (Some (iron_pickaxe\<lparr>fortune := 3\<rparr>)) [3, 4] = Some ([(''minecraft:lapis_lazuli'', 28)], [])"
proof -
  have h1: "\<not> py_endswith (normalize_block_id ''minecraft:lapis_ore'') ''_leaves''" by code_simp
  have h2: "get_enchantment_level (Some (iron_pickaxe\<lparr>fortune := 3\<rparr>)) silk_touch = Some 0"
    by code_simp
  have h3: "(0::int) \<le> 0" by simp
  have f: "get_enchantment_level (Some (iron_pickaxe\<lparr>fortune := 3\<rparr>)) fortune = Some 3"
    by code_simp
  have l: "normalize_block_id (normalize_block_id ''minecraft:lapis_ore'') \<in> set LAPIS_ORES"
    by code_simp
  have r: "randint (-1) 3 [4] = (3, [])" by code_simp
  have s: "spec_drop_count 7 3 True 3 = 28" by (simp add: spec_drop_count_def)
  show ?thesis
    using fortune_drop_count[OF h1 h2 h3, where cfg = default_settings and g = "[3, 4]"]
      h1 h2 f l r s lapis_base_count lapis_fortune3_rewards
    by blast
qed

section \<open>Tool durability: no-ops and the break-on-exceed policy\<close>

text \<open>
  C7. The durability model changes nothing when the tool is absent, when no block was
  broken, when the wear multiplier is not positive, when the tool is unbreakable or has
  no positive maximum durability. Otherwise, when the damage to add is positive and the
  cumulative damage reaches the maximum durability, the tool is removed if
  break-on-exceed is enabled and its damage is set to the maximum minus one if not.
  With break-on-exceed disabled the tool is never removed and every damage value stored
  leaves at least one point of durability.
\<close>

theorem apply_tool_durability_policy:
  "(t = None \<or> successful_breaks \<le> 0 \<or> durability_multiplier cfg \<le> 0 \<or>
      (\<exists>item. t = Some item \<and>
         (is_unbreakable item \<or> max_durability item = None \<or>
          (\<exists>m. max_durability item = Some m \<and> m \<le> 0)))
    \<longrightarrow> apply_tool_durability cfg t successful_breaks g = Some (Unchanged, g)) \<and>
   (\<forall>item m rolls g'. t = Some item \<and> 0 < successful_breaks \<and> 0 < durability_multiplier cfg \<and>
        meta_access item = Meta_ok \<and> \<not> is_unbreakable item \<and> max_durability item = Some m \<and> 0 < m \<and>
        compute_damage_rolls cfg item successful_breaks g = Some (rolls, g') \<and> 0 < rolls \<and>
        m \<le> (case damage item of None \<Rightarrow> 0 | Some d \<Rightarrow> d) + rolls
      \<longrightarrow> apply_tool_durability cfg t successful_breaks g =
            Some (if break_on_exceed cfg then Tool_removed else Damage_set (m - 1), g')) \<and>
   (\<not> break_on_exceed cfg \<longrightarrow>
      map_option fst (apply_tool_durability cfg t successful_breaks g) \<noteq> Some Tool_removed \<and>
      (\<forall>item m d. t = Some item \<and> max_durability item = Some m \<and>
         map_option fst (apply_tool_durability cfg t successful_breaks g) = Some (Damage_set d)
         \<longrightarrow> d \<le> m - 1))"
proof (intro conjI)
  show "t = None \<or> successful_breaks \<le> 0 \<or> durability_multiplier cfg \<le> 0 \<or>
      (\<exists>item. t = Some item \<and>
         (is_unbreakable item \<or> max_durability item = None \<or>
          (\<exists>m. max_durability item = Some m \<and> m \<le> 0)))
    \<longrightarrow> apply_tool_durability cfg t successful_breaks g = Some (Unchanged, g)"
    by (auto simp: apply_tool_durability_def Let_def split: option.splits)
next
  show "\<forall>item m rolls g'. t = Some item \<and> 0 < successful_breaks \<and> 0 < durability_multiplier cfg \<and>
        meta_access item = Meta_ok \<and> \<not> is_unbreakable item \<and> max_durability item = Some m \<and> 0 < m \<and>
        compute_damage_rolls cfg item successful_breaks g = Some (rolls, g') \<and> 0 < rolls \<and>
        m \<le> (case damage item of None \<Rightarrow> 0 | Some d \<Rightarrow> d) + rolls
      \<longrightarrow> apply_tool_durability cfg t successful_breaks g =
            Some (if break_on_exceed cfg then Tool_removed else Damage_set (m - 1), g')"
    by (auto simp: apply_tool_durability_def Let_def split: option.splits prod.splits)
next
  show "\<not> break_on_exceed cfg \<longrightarrow>
      map_option fst (apply_tool_durability cfg t successful_breaks g) \<noteq> Some Tool_removed \<and>
      (\<forall>item m d. t = Some item \<and> max_durability item = Some m \<and>
         map_option fst (apply_tool_durability cfg t successful_breaks g) = Some (Damage_set d)
         \<longrightarrow> d \<le> m - 1)"
    by (auto simp: apply_tool_durability_def Let_def split: option.splits prod.splits if_splits)
qed

lemma floor_rat_numeral: "\<lfloor>numeral a / numeral b :: rat\<rfloor> = numeral a div numeral b"
  by (metis floor_divide_of_int_eq of_int_numeral)

lemma ceiling_rat_numeral: "\<lceil>numeral a / numeral b :: rat\<rceil> = - (- numeral a div numeral b)"
  using ceiling_divide_eq_div[of "numeral a" "numeral b", where ?'a = rat] by simp

lemmas float_exponent = floor_log2_def floor_rat_numeral ceiling_rat_numeral

lemmas float_significand =
  pow2_def round_half_even_def Let_def floor_rat_numeral ceiling_rat_numeral

text \<open>Integers below \<open>2\<^sup>5\<^sup>3\<close> are floats; decimal fractions are rounded.\<close>

lemma round_double_zero: "round_double 0 = Some 0"
  by (simp add: round_double_def)

lemma round_double_integers:
  "round_double 1 = Some 1"
  "round_double 5 = Some 5"
  "round_double 28 = Some 28"
  "round_double 100 = Some 100"
  unfolding round_double_def Let_def
  by (simp add: float_exponent, simp add: float_significand)+

lemma round_double_decimals:
  "round_double (29 / 100) = Some (5224175567749775 / 18014398509481984)"
  "round_double (5 / 100) = Some (3602879701896397 / 72057594037927936)"
  "round_double (25 / 1000) = Some (3602879701896397 / 144115188075855872)"
  "round_double (2 / 100) = Some (5764607523034235 / 288230376151711744)"
  unfolding round_double_def Let_def
  by (simp add: float_exponent, simp add: float_significand)+

lemma round_double_floats:
  "round_double (5224175567749775 / 18014398509481984) =
     Some (5224175567749775 / 18014398509481984)"
  "round_double (8162774324609023 / 281474976710656) =
     Some (8162774324609023 / 281474976710656)"
  "round_double (281474976710655 / 281474976710656) =
     Some (281474976710655 / 281474976710656)"
  unfolding round_double_def Let_def
  by (simp add: float_exponent, simp add: float_significand)+

lemma round_double_product:
  "round_double (130604389193744375 / 4503599627370496) =
     Some (8162774324609023 / 281474976710656)"
  unfolding round_double_def Let_def
  by (simp add: float_exponent, simp add: float_significand)

lemma worn_pickaxe_rolls:
  "compute_damage_rolls default_settings iron_pickaxe 5 [0] = Some (5, [])"
  by (simp add: compute_damage_rolls_def float_mul_def float_sub_def round_double_integers
        round_double_zero py_int_of_float_def random_unit_def default_settings_def iron_pickaxe_def
        get_enchantment_level_def Let_def)

lemma worn_pickaxe_kept:
  "apply_tool_durability (default_settings\<lparr>break_on_exceed := False\<rparr>) (Some iron_pickaxe) 5 [0] =
     Some (Damage_set 249, [])"
  by (simp add: apply_tool_durability_def compute_damage_rolls_def float_mul_def float_sub_def
        round_double_integers round_double_zero py_int_of_float_def random_unit_def default_settings_def
        iron_pickaxe_def get_enchantment_level_def Let_def)

text \<open>
  The product is a float product: 100 breaks at a multiplier of 0.29 give
  28.999999999999996, so the highest value of \<^verbatim>\<open>random.random()\<close> leaves 28 points of
  damage.
\<close>

lemma float_product_29:
  "float_mul 100 (py_float (29 / 100)) = Some (8162774324609023 / 281474976710656)"
  by (simp add: float_mul_def py_float_def round_double_integers round_double_decimals
        round_double_floats round_double_product)

lemma compute_damage_rolls_float_product:
  "compute_damage_rolls (default_settings\<lparr>durability_multiplier := py_float (29 / 100)\<rparr>)
     iron_pickaxe 100 [2 ^ 53 - 1] = Some (28, [])"
proof -
  have i: "py_int_of_float (8162774324609023 / 281474976710656) = 28"
    by (simp add: py_int_of_float_def floor_rat_numeral)
  have d: "float_sub (8162774324609023 / 281474976710656) 28 =
             Some (281474976710655 / 281474976710656)"
    by (simp add: float_sub_def round_double_integers round_double_floats)
  have u: "random_unit [9007199254740991] = (9007199254740991 / 9007199254740992, [])"
    by (simp add: random_unit_def)
  have l: "get_enchantment_level (Some iron_pickaxe) unbreaking = Some 0"
    by (simp add: get_enchantment_level_def iron_pickaxe_def)
  show ?thesis
    by (simp add: compute_damage_rolls_def default_settings_def float_product_29 i d u l)
qed

text \<open>
  An iron pickaxe with 248 of 250 points of damage after five breaks: removed under
  break-on-exceed, kept at 249 without it; an empty hand is a no-op.
\<close>

theorem apply_tool_durability_policy_witness:
  "apply_tool_durability default_settings None 5 [0] = Some (Unchanged, [0]) \<and>
   compute_damage_rolls default_settings iron_pickaxe 5 [0] = Some (5, []) \<and>
   apply_tool_durability default_settings (Some iron_pickaxe) 5 [0] = Some (Tool_removed, []) \<and>
   apply_tool_durability (default_settings\<lparr>break_on_exceed := False\<rparr>) (Some iron_pickaxe) 5 [0]
     = Some (Damage_set 249, [])"
proof -
  have a: "apply_tool_durability default_settings None 5 [0] = Some (Unchanged, [0])"
    using apply_tool_durability_policy[of None 5 default_settings "[0]"] by simp
  have b: "apply_tool_durability default_settings (Some iron_pickaxe) 5 [0] = Some (Tool_removed, [])"
    using apply_tool_durability_policy[of "Some iron_pickaxe" 5 default_settings "[0]"]
      worn_pickaxe_rolls
    by (simp add: default_settings_def iron_pickaxe_def)
  show ?thesis using a b worn_pickaxe_rolls worn_pickaxe_kept by simp
qed

section \<open>The block-break handler: state left by the checks\<close>

lemma record_vein_usage_fields:
  "blocked_players (record_vein_usage cfg st pid n t) = blocked_players st"
  "processing_vein (record_vein_usage cfg st pid n t) = processing_vein st"
  "last_vein_mine (record_vein_usage cfg st pid n t) = last_vein_mine st"
  "last_cooldown_message (record_vein_usage cfg st pid n t) = last_cooldown_message st"
  "last_error_message (record_vein_usage cfg st pid n t) = last_error_message st"
  "neighbor_offsets (record_vein_usage cfg st pid n t) = neighbor_offsets st"
  "disabled_players (record_vein_usage cfg st pid n t) = disabled_players st"
  by (simp_all add: record_vein_usage_def Let_def)

lemma is_player_blocked_fields:
  "minute_vein_count (snd (is_player_blocked st pid t)) = minute_vein_count st"
  "daily_vein_count (snd (is_player_blocked st pid t)) = daily_vein_count st"
  "daily_block_count (snd (is_player_blocked st pid t)) = daily_block_count st"
  "processing_vein (snd (is_player_blocked st pid t)) = processing_vein st"
  "last_vein_mine (snd (is_player_blocked st pid t)) = last_vein_mine st"
  "last_cooldown_message (snd (is_player_blocked st pid t)) = last_cooldown_message st"
  "last_error_message (snd (is_player_blocked st pid t)) = last_error_message st"
  "neighbor_offsets (snd (is_player_blocked st pid t)) = neighbor_offsets st"
  "disabled_players (snd (is_player_blocked st pid t)) = disabled_players st"
  by (simp_all add: is_player_blocked_def split: option.splits)

lemma is_player_blocked_blocked:
  "fst (is_player_blocked st pid t) \<Longrightarrow> snd (is_player_blocked st pid t) = st"
  by (simp add: is_player_blocked_def split: option.splits if_splits)

lemma is_player_blocked_map:
  "blocked_players (snd (is_player_blocked st pid t)) p = blocked_players st p \<or>
   blocked_players (snd (is_player_blocked st pid t)) p = None"
  by (simp add: is_player_blocked_def split: option.splits)

lemma check_rate_limits_fields:
  "blocked_players (snd (check_rate_limits cfg st pid t)) = blocked_players st"
  "daily_vein_count (snd (check_rate_limits cfg st pid t)) = daily_vein_count st"
  "daily_block_count (snd (check_rate_limits cfg st pid t)) = daily_block_count st"
  "processing_vein (snd (check_rate_limits cfg st pid t)) = processing_vein st"
  "last_vein_mine (snd (check_rate_limits cfg st pid t)) = last_vein_mine st"
  "last_cooldown_message (snd (check_rate_limits cfg st pid t)) = last_cooldown_message st"
  "last_error_message (snd (check_rate_limits cfg st pid t)) = last_error_message st"
  "neighbor_offsets (snd (check_rate_limits cfg st pid t)) = neighbor_offsets st"
  "disabled_players (snd (check_rate_limits cfg st pid t)) = disabled_players st"
  by (simp_all add: check_rate_limits_def Let_def)

lemma check_rate_limits_timestamps:
  "set (timestamps (snd (check_rate_limits cfg st pid t)) p) \<subseteq> set (timestamps st p)"
  by (auto simp: check_rate_limits_def timestamps_def Let_def split: option.splits)

lemma check_rate_limits_fails:
  "\<not> fst (check_rate_limits cfg st pid t) \<longleftrightarrow>
     0 < max_veins_per_minute cfg \<and>
     max_veins_per_minute cfg \<le> int (length (filter (\<lambda>s. t - s < 60000) (timestamps st pid)))"
  by (simp add: check_rate_limits_def timestamps_def Let_def)

lemma gate_state_fields:
  "daily_vein_count (gate_state cfg st pid clk) = daily_vein_count st"
  "daily_block_count (gate_state cfg st pid clk) = daily_block_count st"
  "processing_vein (gate_state cfg st pid clk) = processing_vein st"
  "last_vein_mine (gate_state cfg st pid clk) = last_vein_mine st"
  "last_cooldown_message (gate_state cfg st pid clk) = last_cooldown_message st"
  "last_error_message (gate_state cfg st pid clk) = last_error_message st"
  "neighbor_offsets (gate_state cfg st pid clk) = neighbor_offsets st"
  "disabled_players (gate_state cfg st pid clk) = disabled_players st"
  by (simp_all add: gate_state_def check_rate_limits_fields is_player_blocked_fields)

lemma gate_state_timestamps:
  "set (timestamps (gate_state cfg st pid clk) p) \<subseteq> set (timestamps st p)"
proof -
  have "timestamps (snd (is_player_blocked st pid (t_blocked clk))) p = timestamps st p"
    by (simp add: timestamps_def is_player_blocked_fields)
  then show ?thesis
    using check_rate_limits_timestamps[of cfg "snd (is_player_blocked st pid (t_blocked clk))" pid "t_rate clk" p]
    by (simp add: gate_state_def)
qed

lemma gate_state_blocked:
  "blocked_players (gate_state cfg st pid clk) p = blocked_players st p \<or>
   blocked_players (gate_state cfg st pid clk) p = None"
  using is_player_blocked_map[of st pid "t_blocked clk" p]
  by (simp add: gate_state_def check_rate_limits_fields)

lemma on_cooldown_gate_state:
  "on_cooldown cfg (gate_state cfg st pid clk) p t = on_cooldown cfg st p t"
  by (simp add: on_cooldown_def gate_state_fields)

text \<open>The checks pass exactly when no check rejects, and then leave the gate state.\<close>

lemma pre_checks_pass:
  assumes "fst (pre_checks cfg st ev h clk) = None"
  shows "pre_checks cfg st ev h clk = (None, gate_state cfg st (ev_player ev) clk, [])"
    and "\<not> is_cancelled ev" and "ev_player ev \<notin> processing_vein st"
  using assms
  by (auto simp: pre_checks_def gate_state_def Let_def case_prod_unfold check_rate_limits_fields
        is_player_blocked_fields split: if_splits)

lemma try_body_fields:
  "blocked_players (fst (snd (try_body cfg st ev h clk))) = blocked_players st"
  "processing_vein (fst (snd (try_body cfg st ev h clk))) = processing_vein st"
  "last_cooldown_message (fst (snd (try_body cfg st ev h clk))) = last_cooldown_message st"
  by (simp_all add: try_body_def Let_def case_prod_unfold record_vein_usage_fields
        split: option.splits)

lemma on_error_fields:
  "blocked_players (fst (snd (on_error st ev h clk))) = blocked_players st"
  "processing_vein (fst (snd (on_error st ev h clk))) = processing_vein st"
  "last_cooldown_message (fst (snd (on_error st ev h clk))) = last_cooldown_message st"
  by (simp_all add: on_error_def Let_def)

lemma on_block_break_pass:
  assumes "fst (pre_checks cfg st ev h clk) = None"
  shows "state (on_block_break cfg st ev h clk) =
           (let st2 = (gate_state cfg st (ev_player ev) clk)
                        \<lparr>processing_vein := insert (ev_player ev) (processing_vein st)\<rparr>;
                b = try_body cfg st2 ev h clk;
                st4 = (case fst b of Some e \<Rightarrow> fst (snd b)
                       | None \<Rightarrow> fst (snd (on_error (fst (snd b)) ev h clk)))
            in st4\<lparr>processing_vein := processing_vein st4 - {ev_player ev}\<rparr>)"
  using pre_checks_pass(1)[OF assms]
  by (simp add: on_block_break_def Let_def case_prod_unfold gate_state_fields split: option.splits)

section \<open>Concurrency guard: release on every exit path\<close>

text \<open>
  C5. Whenever the checks pass, so that the handler sets the player's processing flag,
  the flag is clear again when the handler is left, whatever the host does: normal
  processing, a rejection inside the \<^verbatim>\<open>try\<close> block (wrong tool, invalid vein, size
  or daily-limit rejection), an exception raised by any host call, and an exception
  raised by the \<^verbatim>\<open>except\<close> block itself. The set of processing players is then the
  one found on entry.
\<close>

theorem processing_flag_released:
  assumes "fst (pre_checks cfg st ev h clk) = None"
  shows "ev_player ev \<notin> processing_vein (state (on_block_break cfg st ev h clk)) \<and>
         processing_vein (state (on_block_break cfg st ev h clk)) = processing_vein st"
proof -
  have nin: "ev_player ev \<notin> processing_vein st" using pre_checks_pass(3)[OF assms] .
  show ?thesis
    using nin unfolding on_block_break_pass[OF assms] Let_def
    by (auto simp: try_body_fields on_error_fields split: option.splits)
qed

lemma failing_host_passes_checks:
  "fst (pre_checks default_settings initial_state sneaking_break failing_host (at_time 100000)) = None"
  by code_simp

lemma failing_host_exit:
  "exit_point (on_block_break default_settings initial_state sneaking_break failing_host (at_time 100000))
     = Exit_error"
  by code_simp

text \<open>A host whose inventory read raises: the handler ends in the \<^verbatim>\<open>except\<close> block, flag clear.\<close>

theorem processing_flag_released_witness:
  "fst (pre_checks default_settings initial_state sneaking_break failing_host (at_time 100000)) = None \<and>
   exit_point (on_block_break default_settings initial_state sneaking_break failing_host (at_time 100000))
     = Exit_error \<and>
   ''steve'' \<notin> processing_vein
     (state (on_block_break default_settings initial_state sneaking_break failing_host (at_time 100000)))"
proof -
  have p: "ev_player sneaking_break = ''steve''" by (simp add: sneaking_break_def)
  have "ev_player sneaking_break \<notin> processing_vein
          (state (on_block_break default_settings initial_state sneaking_break failing_host (at_time 100000)))"
    using processing_flag_released[OF failing_host_passes_checks] by (rule conjunct1)
  then have a: "''steve'' \<notin> processing_vein
          (state (on_block_break default_settings initial_state sneaking_break failing_host (at_time 100000)))"
    unfolding p .
  show ?thesis using a failing_host_passes_checks failing_host_exit by blast
qed

lemma try_body_below_min:
  assumes "item_in_main_hand h = Some tool"
    and "require_correct_tool cfg \<longrightarrow> is_proper_tool (ev_block_type ev) tool"
    and "find_vein cfg (neighbor_offsets st) (Some (ev_block_type ev, ev_block_pos ev)) (ev_dimension ev) \<noteq> []"
    and "int (length (find_vein cfg (neighbor_offsets st) (Some (ev_block_type ev, ev_block_pos ev)) (ev_dimension ev)))
           < min_vein_size cfg"
  shows "\<exists>cache. try_body cfg st ev h clk =
           (Some Exit_below_min_size, st\<lparr>neighbor_offsets := cache\<rparr>, False, [])"
proof (cases "ev_dimension ev")
  case None
  have "try_body cfg st ev h clk = (Some Exit_below_min_size, st, False, [])"
    using assms None by (simp add: try_body_def Let_def)
  then have "try_body cfg st ev h clk =
      (Some Exit_below_min_size, st\<lparr>neighbor_offsets := neighbor_offsets st\<rparr>, False, [])"
    by simp
  then show ?thesis by blast
next
  case (Some w)
  have "try_body cfg st ev h clk =
      (Some Exit_below_min_size,
       st\<lparr>neighbor_offsets := Some (case neighbor_offsets st of
                None \<Rightarrow> build_neighbor_offsets cfg | Some ns \<Rightarrow> ns)\<rparr>, False, [])"
    using assms Some by (simp add: try_body_def Let_def)
  then show ?thesis by blast
qed

section \<open>Veins below the minimum size\<close>

text \<open>
  C10. When the checks pass, the tool is read and accepted, and the discovered vein is
  non-empty but has fewer than \<open>min_vein_size\<close> members, the handler falls through: the
  event is not cancelled, no message, tip, processing or statistics call is made (so no
  block is cleared and no drop or experience is granted), the daily counters and the
  last-operation time are unchanged, no timestamp is added to the rate window, and the
  processing flag is as on entry.
\<close>

theorem below_min_size_changes_nothing:
  assumes pre: "fst (pre_checks cfg st ev h clk) = None"
    and tool: "item_in_main_hand h = Some tool"
    and proper: "require_correct_tool cfg \<longrightarrow> is_proper_tool (ev_block_type ev) tool"
    and nonempty: "find_vein cfg (neighbor_offsets st) (Some (ev_block_type ev, ev_block_pos ev)) (ev_dimension ev) \<noteq> []"
    and small: "int (length (find_vein cfg (neighbor_offsets st) (Some (ev_block_type ev, ev_block_pos ev))
                   (ev_dimension ev))) < min_vein_size cfg"
  shows "exit_point (on_block_break cfg st ev h clk) = Exit_below_min_size \<and>
         \<not> propagated (on_block_break cfg st ev h clk) \<and>
         \<not> event_cancelled (on_block_break cfg st ev h clk) \<and>
         effects (on_block_break cfg st ev h clk) = [] \<and>
         last_vein_mine (state (on_block_break cfg st ev h clk)) = last_vein_mine st \<and>
         daily_vein_count (state (on_block_break cfg st ev h clk)) = daily_vein_count st \<and>
         daily_block_count (state (on_block_break cfg st ev h clk)) = daily_block_count st \<and>
         processing_vein (state (on_block_break cfg st ev h clk)) = processing_vein st \<and>
         (\<forall>p. set (timestamps (state (on_block_break cfg st ev h clk)) p) \<subseteq> set (timestamps st p))"
proof -
  let ?pid = "ev_player ev"
  let ?g = "gate_state cfg st ?pid clk"
  let ?st2 = "?g\<lparr>processing_vein := insert ?pid (processing_vein st)\<rparr>"
  have pc: "pre_checks cfg st ev h clk = (None, ?g, [])"
    and nc: "\<not> is_cancelled ev" and nin: "?pid \<notin> processing_vein st"
    using pre_checks_pass[OF pre] by simp_all
  have cache: "neighbor_offsets ?st2 = neighbor_offsets st" by (simp add: gate_state_fields)
  obtain c where tb: "try_body cfg ?st2 ev h clk =
      (Some Exit_below_min_size, ?st2\<lparr>neighbor_offsets := c\<rparr>, False, [])"
    using try_body_below_min[of h tool cfg ev ?st2 clk] tool proper nonempty small
    unfolding cache by blast
  have r: "on_block_break cfg st ev h clk =
      \<lparr>exit_point = Exit_below_min_size, propagated = False,
       state = (?st2\<lparr>neighbor_offsets := c\<rparr>)\<lparr>processing_vein := processing_vein st\<rparr>,
       event_cancelled = False, effects = []\<rparr>"
    using nin by (simp add: on_block_break_def pc tb Let_def gate_state_fields)
  have ts: "\<forall>p. set (timestamps (state (on_block_break cfg st ev h clk)) p) \<subseteq> set (timestamps st p)"
  proof
    fix p
    have "timestamps (state (on_block_break cfg st ev h clk)) p = timestamps ?g p"
      by (simp add: r timestamps_def)
    then show "set (timestamps (state (on_block_break cfg st ev h clk)) p) \<subseteq> set (timestamps st p)"
      using gate_state_timestamps[of cfg st ?pid clk p] by simp
  qed
  show ?thesis using ts by (simp add: r gate_state_fields)
qed

lemma lone_break_passes_checks:
  "fst (pre_checks default_settings initial_state lone_break calm_host (at_time 100000)) = None"
  by code_simp

lemma lone_break_vein:
  "find_vein default_settings (neighbor_offsets initial_state)
     (Some (ev_block_type lone_break, ev_block_pos lone_break)) (ev_dimension lone_break) = [(0, 0, 0)]"
  by code_simp

lemma lone_break_tool:
  "item_in_main_hand calm_host = Some (Some iron_pickaxe) \<and>
   (require_correct_tool default_settings \<longrightarrow> is_proper_tool (ev_block_type lone_break) (Some iron_pickaxe))"
  by code_simp

text \<open>A lone iron-ore block with the default minimum size 2.\<close>

theorem below_min_size_changes_nothing_witness:
  "fst (pre_checks default_settings initial_state lone_break calm_host (at_time 100000)) = None \<and>
   find_vein default_settings (neighbor_offsets initial_state)
     (Some (ev_block_type lone_break, ev_block_pos lone_break)) (ev_dimension lone_break) = [(0, 0, 0)] \<and>
   min_vein_size default_settings = 2 \<and>
   exit_point (on_block_break default_settings initial_state lone_break calm_host (at_time 100000))
     = Exit_below_min_size \<and>
   effects (on_block_break default_settings initial_state lone_break calm_host (at_time 100000)) = [] \<and>
   last_vein_mine (state (on_block_break default_settings initial_state lone_break calm_host (at_time 100000)))
     = last_vein_mine initial_state"
proof -
  have m: "min_vein_size default_settings = 2" by (simp add: default_settings_def)
  have t: "item_in_main_hand calm_host = Some (Some iron_pickaxe)"
    and p: "require_correct_tool default_settings \<longrightarrow> is_proper_tool (ev_block_type lone_break) (Some iron_pickaxe)"
    using lone_break_tool by blast+
  have ne: "find_vein default_settings (neighbor_offsets initial_state)
     (Some (ev_block_type lone_break, ev_block_pos lone_break)) (ev_dimension lone_break) \<noteq> []"
    by (simp add: lone_break_vein)
  have sm: "int (length (find_vein default_settings (neighbor_offsets initial_state)
     (Some (ev_block_type lone_break, ev_block_pos lone_break)) (ev_dimension lone_break)))
       < min_vein_size default_settings"
    by (simp add: lone_break_vein m)
  show ?thesis
    using below_min_size_changes_nothing[OF lone_break_passes_checks t p ne sm]
      lone_break_passes_checks lone_break_vein m
    by blast
qed

lemma pre_checks_pass_gate:
  assumes "fst (pre_checks cfg st ev h clk) = None"
  shows "\<not> fst (is_player_blocked st (ev_player ev) (t_blocked clk))"
    and "fst (check_rate_limits cfg (snd (is_player_blocked st (ev_player ev) (t_blocked clk)))
               (ev_player ev) (t_rate clk))"
    and "\<not> on_cooldown cfg st (ev_player ev) (t_cooldown clk)"
  using assms
  by (auto simp: pre_checks_def Let_def case_prod_unfold on_cooldown_def check_rate_limits_fields
        is_player_blocked_fields split: if_splits)

lemma pre_checks_exits:
  assumes "fst (pre_checks cfg st ev h clk) = Some (e, raised)"
  shows "e \<in> {Exit_cancelled, Exit_invalid_event, Exit_blocked, Exit_no_permission, Exit_toggled_off,
              Exit_rate_limited, Exit_already_processing, Exit_cooldown, Exit_disabled_world,
              Exit_activation, Exit_not_vein_block, Exit_no_block_permission}"
  using assms
  by (auto simp: pre_checks_def Let_def case_prod_unfold split: if_splits)

lemma on_block_break_rejected:
  assumes "pre_checks cfg st ev h clk = (Some (e, raised), st1, effs)"
  shows "on_block_break cfg st ev h clk =
           \<lparr>exit_point = e, propagated = raised, state = st1,
            event_cancelled = is_cancelled ev, effects = effs\<rparr>"
  using assms by (simp add: on_block_break_def)

lemma pre_checks_blocked:
  assumes "\<not> is_cancelled ev" "has_player ev" "has_block ev"
    and "fst (is_player_blocked st (ev_player ev) (t_blocked clk))"
  shows "pre_checks cfg st ev h clk = (Some (Exit_blocked, False), st, [])"
  using assms is_player_blocked_blocked[of st "ev_player ev" "t_blocked clk"]
  by (simp add: pre_checks_def Let_def case_prod_unfold)

lemma pre_checks_rate_limited:
  assumes "\<not> is_cancelled ev" "has_player ev" "has_block ev"
    and "has_permission_use ev" "ev_player ev \<notin> disabled_players st"
    and "\<not> fst (is_player_blocked st (ev_player ev) (t_blocked clk))"
    and "\<not> fst (check_rate_limits cfg (snd (is_player_blocked st (ev_player ev) (t_blocked clk)))
                 (ev_player ev) (t_rate clk))"
  shows "pre_checks cfg st ev h clk =
           (Some (Exit_rate_limited, send_message_raises h ''limit-reached''),
            block_player_temporarily cfg (gate_state cfg st (ev_player ev) clk) (ev_player ev) (t_block clk),
            if send_message_raises h ''limit-reached'' then [] else [Send_message ''limit-reached''])"
  using assms
  by (simp add: pre_checks_def Let_def case_prod_unfold gate_state_def is_player_blocked_fields)

lemma pre_checks_processing:
  assumes "\<not> is_cancelled ev" "has_player ev" "has_block ev"
    and "has_permission_use ev" "ev_player ev \<notin> disabled_players st"
    and "\<not> fst (is_player_blocked st (ev_player ev) (t_blocked clk))"
    and "fst (check_rate_limits cfg (snd (is_player_blocked st (ev_player ev) (t_blocked clk)))
               (ev_player ev) (t_rate clk))"
    and "ev_player ev \<in> processing_vein st"
  shows "pre_checks cfg st ev h clk =
           (Some (Exit_already_processing, False), gate_state cfg st (ev_player ev) clk, [])"
  using assms
  by (simp add: pre_checks_def Let_def case_prod_unfold gate_state_def is_player_blocked_fields
        check_rate_limits_fields)

lemma pre_checks_cooldown:
  assumes "\<not> is_cancelled ev" "has_player ev" "has_block ev"
    and "has_permission_use ev" "ev_player ev \<notin> disabled_players st"
    and "\<not> fst (is_player_blocked st (ev_player ev) (t_blocked clk))"
    and "fst (check_rate_limits cfg (snd (is_player_blocked st (ev_player ev) (t_blocked clk)))
               (ev_player ev) (t_rate clk))"
    and "ev_player ev \<notin> processing_vein st"
    and "on_cooldown cfg st (ev_player ev) (t_cooldown clk)"
  shows "\<exists>raised st1 effs. pre_checks cfg st ev h clk = (Some (Exit_cooldown, raised), st1, effs) \<and>
           processing_vein st1 = processing_vein st \<and> neighbor_offsets st1 = neighbor_offsets st \<and>
           blocked_players st1 = blocked_players (gate_state cfg st (ev_player ev) clk) \<and>
           set effs \<subseteq> {Send_message ''cooldown-active''}"
  using assms on_cooldown_gate_state[of cfg st "ev_player ev" clk "ev_player ev" "t_cooldown clk"]
  by (auto simp: pre_checks_def Let_def case_prod_unfold gate_state_def is_player_blocked_fields
        check_rate_limits_fields)

lemma check_daily_limits_cong:
  "daily_vein_count st' = daily_vein_count st \<Longrightarrow> daily_block_count st' = daily_block_count st \<Longrightarrow>
   check_daily_limits cfg st' pid n = check_daily_limits cfg st pid n"
  by (simp add: check_daily_limits_def)

lemma try_body_daily_limit:
  assumes "fst (try_body cfg st ev h clk) = Some Exit_daily_limit"
  shows "\<not> check_daily_limits cfg st (ev_player ev)
            (min (int (length (find_vein cfg (neighbor_offsets st) (Some (ev_block_type ev, ev_block_pos ev))
                                 (ev_dimension ev))))
                 (max_blocks cfg))"
proof -
  let ?st1 = "case ev_dimension ev of None \<Rightarrow> st
              | Some w \<Rightarrow> st\<lparr>neighbor_offsets := Some (case neighbor_offsets st of
                                None \<Rightarrow> build_neighbor_offsets cfg | Some ns \<Rightarrow> ns)\<rparr>"
  let ?n = "min (int (length (find_vein cfg (neighbor_offsets st) (Some (ev_block_type ev, ev_block_pos ev))
                                 (ev_dimension ev)))) (max_blocks cfg)"
  have eq: "check_daily_limits cfg ?st1 (ev_player ev) ?n = check_daily_limits cfg st (ev_player ev) ?n"
    by (rule check_daily_limits_cong) (simp_all split: option.splits)
  have "\<not> check_daily_limits cfg ?st1 (ev_player ev) ?n"
    using assms
    by (auto simp: try_body_def Let_def case_prod_unfold split: option.splits if_splits)
  then show ?thesis using eq by simp
qed

section \<open>The order of the gate checks\<close>

text \<open>
  C1 (as amended). For a break event that is not cancelled, of a player who holds the
  permission and has not toggled vein mining off, the handler evaluates the gate in the
  order temporary block, rate limit, concurrency, cooldown, and (after the activation
  checks, the tool check and the search) daily limit. Each rejecting check is a hard
  stop: a blocked player leaves the state untouched; a rate-limit rejection only sets
  the temporary block on top of the pruned rate window; a concurrency rejection leaves
  the gate state and sends nothing; a cooldown rejection sends at most the cooldown
  notice and reaches neither the flag nor the search; and a daily-limit rejection occurs
  only when all four earlier checks passed and the daily check fails.
\<close>

theorem gate_order_in_handler:
  assumes ev: "\<not> is_cancelled ev" "has_player ev" "has_block ev"
    and allowed: "has_permission_use ev" "ev_player ev \<notin> disabled_players st"
  shows
    "(fst (is_player_blocked st (ev_player ev) (t_blocked clk)) \<longrightarrow>
        exit_point (on_block_break cfg st ev h clk) = Exit_blocked \<and>
        state (on_block_break cfg st ev h clk) = st \<and>
        effects (on_block_break cfg st ev h clk) = []) \<and>
     (\<not> fst (is_player_blocked st (ev_player ev) (t_blocked clk)) \<and>
      \<not> fst (check_rate_limits cfg (snd (is_player_blocked st (ev_player ev) (t_blocked clk)))
               (ev_player ev) (t_rate clk)) \<longrightarrow>
        exit_point (on_block_break cfg st ev h clk) = Exit_rate_limited \<and>
        state (on_block_break cfg st ev h clk) =
          block_player_temporarily cfg (gate_state cfg st (ev_player ev) clk) (ev_player ev) (t_block clk) \<and>
        set (effects (on_block_break cfg st ev h clk)) \<subseteq> {Send_message ''limit-reached''}) \<and>
     (\<not> fst (is_player_blocked st (ev_player ev) (t_blocked clk)) \<and>
      fst (check_rate_limits cfg (snd (is_player_blocked st (ev_player ev) (t_blocked clk)))
               (ev_player ev) (t_rate clk)) \<and>
      ev_player ev \<in> processing_vein st \<longrightarrow>
        exit_point (on_block_break cfg st ev h clk) = Exit_already_processing \<and>
        state (on_block_break cfg st ev h clk) = gate_state cfg st (ev_player ev) clk \<and>
        effects (on_block_break cfg st ev h clk) = []) \<and>
     (\<not> fst (is_player_blocked st (ev_player ev) (t_blocked clk)) \<and>
      fst (check_rate_limits cfg (snd (is_player_blocked st (ev_player ev) (t_blocked clk)))
               (ev_player ev) (t_rate clk)) \<and>
      ev_player ev \<notin> processing_vein st \<and>
      on_cooldown cfg st (ev_player ev) (t_cooldown clk) \<longrightarrow>
        exit_point (on_block_break cfg st ev h clk) = Exit_cooldown \<and>
        processing_vein (state (on_block_break cfg st ev h clk)) = processing_vein st \<and>
        neighbor_offsets (state (on_block_break cfg st ev h clk)) = neighbor_offsets st \<and>
        set (effects (on_block_break cfg st ev h clk)) \<subseteq> {Send_message ''cooldown-active''}) \<and>
     (exit_point (on_block_break cfg st ev h clk) = Exit_daily_limit \<longrightarrow>
        \<not> fst (is_player_blocked st (ev_player ev) (t_blocked clk)) \<and>
        fst (check_rate_limits cfg (snd (is_player_blocked st (ev_player ev) (t_blocked clk)))
               (ev_player ev) (t_rate clk)) \<and>
        ev_player ev \<notin> processing_vein st \<and>
        \<not> on_cooldown cfg st (ev_player ev) (t_cooldown clk) \<and>
        \<not> check_daily_limits cfg st (ev_player ev)
            (min (int (length (find_vein cfg (neighbor_offsets st) (Some (ev_block_type ev, ev_block_pos ev))
                                 (ev_dimension ev))))
                 (max_blocks cfg)))"
proof (intro conjI impI)
  assume b: "fst (is_player_blocked st (ev_player ev) (t_blocked clk))"
  note r = on_block_break_rejected[OF pre_checks_blocked[OF ev b]]
  show "exit_point (on_block_break cfg st ev h clk) = Exit_blocked"
    and "state (on_block_break cfg st ev h clk) = st"
    and "effects (on_block_break cfg st ev h clk) = []"
    by (simp_all add: r)
next
  assume a: "\<not> fst (is_player_blocked st (ev_player ev) (t_blocked clk)) \<and>
      \<not> fst (check_rate_limits cfg (snd (is_player_blocked st (ev_player ev) (t_blocked clk)))
               (ev_player ev) (t_rate clk))"
  note r = on_block_break_rejected[OF pre_checks_rate_limited[OF ev allowed conjunct1[OF a] conjunct2[OF a]]]
  show "exit_point (on_block_break cfg st ev h clk) = Exit_rate_limited"
    and "state (on_block_break cfg st ev h clk) =
          block_player_temporarily cfg (gate_state cfg st (ev_player ev) clk) (ev_player ev) (t_block clk)"
    and "set (effects (on_block_break cfg st ev h clk)) \<subseteq> {Send_message ''limit-reached''}"
    by (simp_all add: r)
next
  assume a: "\<not> fst (is_player_blocked st (ev_player ev) (t_blocked clk)) \<and>
      fst (check_rate_limits cfg (snd (is_player_blocked st (ev_player ev) (t_blocked clk)))
               (ev_player ev) (t_rate clk)) \<and>
      ev_player ev \<in> processing_vein st"
  then have a1: "\<not> fst (is_player_blocked st (ev_player ev) (t_blocked clk))"
    and a2: "fst (check_rate_limits cfg (snd (is_player_blocked st (ev_player ev) (t_blocked clk)))
               (ev_player ev) (t_rate clk))"
    and a3: "ev_player ev \<in> processing_vein st" by blast+
  note r = on_block_break_rejected[OF pre_checks_processing[OF ev allowed a1 a2 a3]]
  show "exit_point (on_block_break cfg st ev h clk) = Exit_already_processing"
    and "state (on_block_break cfg st ev h clk) = gate_state cfg st (ev_player ev) clk"
    and "effects (on_block_break cfg st ev h clk) = []"
    by (simp_all add: r)
next
  assume a: "\<not> fst (is_player_blocked st (ev_player ev) (t_blocked clk)) \<and>
      fst (check_rate_limits cfg (snd (is_player_blocked st (ev_player ev) (t_blocked clk)))
               (ev_player ev) (t_rate clk)) \<and>
      ev_player ev \<notin> processing_vein st \<and>
      on_cooldown cfg st (ev_player ev) (t_cooldown clk)"
  then have a1: "\<not> fst (is_player_blocked st (ev_player ev) (t_blocked clk))"
    and a2: "fst (check_rate_limits cfg (snd (is_player_blocked st (ev_player ev) (t_blocked clk)))
               (ev_player ev) (t_rate clk))"
    and a3: "ev_player ev \<notin> processing_vein st"
    and a4: "on_cooldown cfg st (ev_player ev) (t_cooldown clk)" by blast+
  obtain raised st1 effs where
    pc: "pre_checks cfg st ev h clk = (Some (Exit_cooldown, raised), st1, effs)"
    and f: "processing_vein st1 = processing_vein st" "neighbor_offsets st1 = neighbor_offsets st"
      "set effs \<subseteq> {Send_message ''cooldown-active''}"
    using pre_checks_cooldown[OF ev allowed a1 a2 a3 a4, of h] by blast
  note r = on_block_break_rejected[OF pc]
  show "exit_point (on_block_break cfg st ev h clk) = Exit_cooldown"
    and "processing_vein (state (on_block_break cfg st ev h clk)) = processing_vein st"
    and "neighbor_offsets (state (on_block_break cfg st ev h clk)) = neighbor_offsets st"
    and "set (effects (on_block_break cfg st ev h clk)) \<subseteq> {Send_message ''cooldown-active''}"
    using f by (simp_all add: r)
next
  assume d: "exit_point (on_block_break cfg st ev h clk) = Exit_daily_limit"
  have pass: "fst (pre_checks cfg st ev h clk) = None"
  proof (cases "fst (pre_checks cfg st ev h clk)")
    case None then show ?thesis .
  next
    case (Some er)
    obtain e raised where er: "er = (e, raised)" by (cases er) auto
    obtain st1 effs where pc: "pre_checks cfg st ev h clk = (Some (e, raised), st1, effs)"
      using Some er by (cases "pre_checks cfg st ev h clk") auto
    have "e = Exit_daily_limit" using d on_block_break_rejected[OF pc] by simp
    then show ?thesis using pre_checks_exits[of cfg st ev h clk e raised] Some er by simp
  qed
  let ?pid = "ev_player ev"
  let ?st2 = "(gate_state cfg st ?pid clk)\<lparr>processing_vein := insert ?pid (processing_vein st)\<rparr>"
  have pc: "pre_checks cfg st ev h clk = (None, gate_state cfg st ?pid clk, [])"
    using pre_checks_pass(1)[OF pass] .
  have "fst (try_body cfg ?st2 ev h clk) = Some Exit_daily_limit"
    using d
    by (simp add: on_block_break_def pc Let_def case_prod_unfold gate_state_fields
          split: option.splits)
  then have "\<not> check_daily_limits cfg ?st2 ?pid
            (min (int (length (find_vein cfg (neighbor_offsets ?st2) (Some (ev_block_type ev, ev_block_pos ev))
                                 (ev_dimension ev)))) (max_blocks cfg))"
    by (rule try_body_daily_limit)
  moreover have "neighbor_offsets ?st2 = neighbor_offsets st" by (simp add: gate_state_fields)
  moreover have "check_daily_limits cfg ?st2 ?pid n = check_daily_limits cfg st ?pid n" for n
    by (rule check_daily_limits_cong) (simp_all add: gate_state_fields)
  ultimately have dl: "\<not> check_daily_limits cfg st ?pid
            (min (int (length (find_vein cfg (neighbor_offsets st) (Some (ev_block_type ev, ev_block_pos ev))
                                 (ev_dimension ev)))) (max_blocks cfg))"
    by simp
  show "\<not> fst (is_player_blocked st (ev_player ev) (t_blocked clk))"
    and "fst (check_rate_limits cfg (snd (is_player_blocked st (ev_player ev) (t_blocked clk)))
               (ev_player ev) (t_rate clk))"
    and "ev_player ev \<notin> processing_vein st"
    and "\<not> on_cooldown cfg st (ev_player ev) (t_cooldown clk)"
    and "\<not> check_daily_limits cfg st (ev_player ev)
            (min (int (length (find_vein cfg (neighbor_offsets st) (Some (ev_block_type ev, ev_block_pos ev))
                                 (ev_dimension ev))))
                 (max_blocks cfg))"
    using pre_checks_pass_gate[OF pass] pre_checks_pass(3)[OF pass] dl by simp_all
qed

lemma pre_checks_blocked_map:
  assumes "pre_checks cfg st ev h clk = (Some (e, raised), st1, effs)" and "e \<noteq> Exit_rate_limited"
  shows "blocked_players st1 p = blocked_players st p \<or> blocked_players st1 p = None"
proof -
  have "st1 = st \<or> blocked_players st1 = blocked_players (gate_state cfg st (ev_player ev) clk) \<or>
        st1 = snd (is_player_blocked st (ev_player ev) (t_blocked clk))"
    using assms
    by (auto simp: pre_checks_def Let_def case_prod_unfold gate_state_def split: if_splits)
  then show ?thesis
    using gate_state_blocked[of cfg st "ev_player ev" clk p]
      is_player_blocked_map[of st "ev_player ev" "t_blocked clk" p]
    by auto
qed

lemma rushed_hypotheses:
  "\<not> is_cancelled sneaking_break \<and> has_player sneaking_break \<and> has_block sneaking_break \<and>
   has_permission_use sneaking_break \<and> ev_player sneaking_break \<notin> disabled_players rushed_state \<and>
   \<not> fst (is_player_blocked rushed_state (ev_player sneaking_break) (t_blocked (at_time 100000))) \<and>
   \<not> fst (check_rate_limits strict_settings
            (snd (is_player_blocked rushed_state (ev_player sneaking_break) (t_blocked (at_time 100000))))
            (ev_player sneaking_break) (t_rate (at_time 100000))) \<and>
   on_cooldown strict_settings rushed_state (ev_player sneaking_break) (t_cooldown (at_time 100000))"
  by code_simp

text \<open>A player who is both on cooldown and over the rate limit is rejected by the rate limit.\<close>

theorem gate_order_in_handler_witness:
  "\<not> fst (is_player_blocked rushed_state (ev_player sneaking_break) (t_blocked (at_time 100000))) \<and>
   \<not> fst (check_rate_limits strict_settings
            (snd (is_player_blocked rushed_state (ev_player sneaking_break) (t_blocked (at_time 100000))))
            (ev_player sneaking_break) (t_rate (at_time 100000))) \<and>
   on_cooldown strict_settings rushed_state (ev_player sneaking_break) (t_cooldown (at_time 100000)) \<and>
   exit_point (on_block_break strict_settings rushed_state sneaking_break calm_host (at_time 100000))
     = Exit_rate_limited"
proof -
  have ev: "\<not> is_cancelled sneaking_break" "has_player sneaking_break" "has_block sneaking_break"
    and allowed: "has_permission_use sneaking_break"
      "ev_player sneaking_break \<notin> disabled_players rushed_state"
    using rushed_hypotheses by blast+
  show ?thesis
    using gate_order_in_handler[OF ev allowed, of "at_time 100000" strict_settings calm_host]
      rushed_hypotheses
    by blast
qed

text \<open>
  C1 as stated fails: for a player who is on cooldown and over the rate limit, the
  specification's order rejects at the cooldown, which sets no block; the handler
  rejects at the rate limit and blocks the player for five minutes.
\<close>

theorem gate_order_counterexample:
  "spec_gate strict_settings rushed_state ''steve'' 100000 2 = Some Cooldown \<and>
   exit_point (on_block_break strict_settings rushed_state sneaking_break calm_host (at_time 100000))
     = Exit_rate_limited \<and>
   blocked_players (state (on_block_break strict_settings rushed_state sneaking_break calm_host
     (at_time 100000))) ''steve'' = Some 400000"
  by code_simp

section \<open>Rate limit and temporary block\<close>

text \<open>
  C4 (as amended). When \<open>max_veins_per_minute\<close> is positive and an operation reaches the
  rate-limit check (event not cancelled, player not blocked, permitted and not toggled
  off) with at least that many recorded timestamps younger than 60000 ms, the operation
  is rejected there, nothing is processed, and the player is blocked until the clock
  reading plus \<open>temporary_block_duration\<close> minutes. An invocation that ends anywhere
  else sets no block: each player's entry is as before or has been removed on expiry.
\<close>

theorem rate_limit_sets_temporary_block:
  "(\<not> is_cancelled ev \<and> has_player ev \<and> has_block ev \<and> has_permission_use ev \<and>
    ev_player ev \<notin> disabled_players st \<and>
    \<not> fst (is_player_blocked st (ev_player ev) (t_blocked clk)) \<and>
    0 < max_veins_per_minute cfg \<and>
    max_veins_per_minute cfg
      \<le> int (length (filter (\<lambda>s. t_rate clk - s < 60000) (timestamps st (ev_player ev))))
    \<longrightarrow> exit_point (on_block_break cfg st ev h clk) = Exit_rate_limited \<and>
        \<not> event_cancelled (on_block_break cfg st ev h clk) \<and>
        set (effects (on_block_break cfg st ev h clk)) \<subseteq> {Send_message ''limit-reached''} \<and>
        blocked_players (state (on_block_break cfg st ev h clk)) (ev_player ev) =
          Some (t_block clk + temporary_block_duration cfg * 60 * 1000)) \<and>
   (exit_point (on_block_break cfg st ev h clk) \<noteq> Exit_rate_limited
    \<longrightarrow> (\<forall>p. blocked_players (state (on_block_break cfg st ev h clk)) p = blocked_players st p \<or>
             blocked_players (state (on_block_break cfg st ev h clk)) p = None))"
proof (intro conjI impI)
  assume a: "\<not> is_cancelled ev \<and> has_player ev \<and> has_block ev \<and> has_permission_use ev \<and>
    ev_player ev \<notin> disabled_players st \<and>
    \<not> fst (is_player_blocked st (ev_player ev) (t_blocked clk)) \<and>
    0 < max_veins_per_minute cfg \<and>
    max_veins_per_minute cfg
      \<le> int (length (filter (\<lambda>s. t_rate clk - s < 60000) (timestamps st (ev_player ev))))"
  let ?st1 = "snd (is_player_blocked st (ev_player ev) (t_blocked clk))"
  have ts: "timestamps ?st1 (ev_player ev) = timestamps st (ev_player ev)"
    by (simp add: timestamps_def is_player_blocked_fields)
  have fail: "\<not> fst (check_rate_limits cfg ?st1 (ev_player ev) (t_rate clk))"
    using a unfolding check_rate_limits_fails ts by blast
  have ev: "\<not> is_cancelled ev" "has_player ev" "has_block ev"
    and allowed: "has_permission_use ev" "ev_player ev \<notin> disabled_players st"
    and nb: "\<not> fst (is_player_blocked st (ev_player ev) (t_blocked clk))"
    using a by blast+
  note r = on_block_break_rejected[OF pre_checks_rate_limited[OF ev allowed nb fail]]
  show "exit_point (on_block_break cfg st ev h clk) = Exit_rate_limited"
    and "\<not> event_cancelled (on_block_break cfg st ev h clk)"
    and "set (effects (on_block_break cfg st ev h clk)) \<subseteq> {Send_message ''limit-reached''}"
    and "blocked_players (state (on_block_break cfg st ev h clk)) (ev_player ev) =
          Some (t_block clk + temporary_block_duration cfg * 60 * 1000)"
    using ev by (simp_all add: r block_player_temporarily_def)
next
  assume ne: "exit_point (on_block_break cfg st ev h clk) \<noteq> Exit_rate_limited"
  show "\<forall>p. blocked_players (state (on_block_break cfg st ev h clk)) p = blocked_players st p \<or>
             blocked_players (state (on_block_break cfg st ev h clk)) p = None"
  proof
    fix p
    show "blocked_players (state (on_block_break cfg st ev h clk)) p = blocked_players st p \<or>
          blocked_players (state (on_block_break cfg st ev h clk)) p = None"
    proof (cases "fst (pre_checks cfg st ev h clk)")
      case None
      have "blocked_players (state (on_block_break cfg st ev h clk)) =
            blocked_players (gate_state cfg st (ev_player ev) clk)"
        unfolding on_block_break_pass[OF None] Let_def
        by (simp add: try_body_fields on_error_fields split: option.splits)
      then show ?thesis using gate_state_blocked[of cfg st "ev_player ev" clk p] by simp
    next
      case (Some er)
      obtain e raised where er: "er = (e, raised)" by (cases er) auto
      obtain st1 effs where pc: "pre_checks cfg st ev h clk = (Some (e, raised), st1, effs)"
        using Some er by (cases "pre_checks cfg st ev h clk") auto
      note r = on_block_break_rejected[OF pc]
      have "e \<noteq> Exit_rate_limited" using ne by (simp add: r)
      then show ?thesis using pre_checks_blocked_map[OF pc] by (simp add: r)
    qed
  qed
qed

lemma busy_hypotheses:
  "\<not> is_cancelled sneaking_break \<and> has_player sneaking_break \<and> has_block sneaking_break \<and>
   has_permission_use sneaking_break \<and> ev_player sneaking_break \<notin> disabled_players busy_state \<and>
   \<not> fst (is_player_blocked busy_state (ev_player sneaking_break) (t_blocked (at_time 100000))) \<and>
   0 < max_veins_per_minute default_settings \<and>
   max_veins_per_minute default_settings
     \<le> int (length (filter (\<lambda>s. t_rate (at_time 100000) - s < 60000)
                       (timestamps busy_state (ev_player sneaking_break))))"
  by code_simp

text \<open>With the default maximum of 60, the 61st operation within a second is rejected and blocked.\<close>

theorem rate_limit_sets_temporary_block_witness:
  "max_veins_per_minute default_settings = 60 \<and>
   length (timestamps busy_state ''steve'') = 60 \<and>
   exit_point (on_block_break default_settings busy_state sneaking_break calm_host (at_time 100000))
     = Exit_rate_limited \<and>
   blocked_players (state (on_block_break default_settings busy_state sneaking_break calm_host
     (at_time 100000))) ''steve'' = Some 400000"
proof -
  have m: "max_veins_per_minute default_settings = 60" by (simp add: default_settings_def)
  have l: "length (timestamps busy_state ''steve'') = 60"
    by (simp add: timestamps_def busy_state_def)
  have p: "ev_player sneaking_break = ''steve''" by (simp add: sneaking_break_def)
  have d: "t_block (at_time 100000) + temporary_block_duration default_settings * 60 * 1000 = 400000"
    by (simp add: at_time_def default_settings_def)
  have "exit_point (on_block_break default_settings busy_state sneaking_break calm_host (at_time 100000))
          = Exit_rate_limited \<and>
        blocked_players (state (on_block_break default_settings busy_state sneaking_break calm_host
          (at_time 100000))) (ev_player sneaking_break) =
          Some (t_block (at_time 100000) + temporary_block_duration default_settings * 60 * 1000)"
    using rate_limit_sets_temporary_block[of sneaking_break busy_state "at_time 100000"
        default_settings calm_host] busy_hypotheses
    by blast
  then show ?thesis unfolding p d using m l by blast
qed

text \<open>
  C4 as stated fails for a non-positive maximum: with \<open>max_veins_per_minute = 0\<close> the
  count 0 is at least the maximum, yet the operation is processed and no block is set.
\<close>

theorem rate_limit_disabled_counterexample:
  "max_veins_per_minute unlimited_settings
     \<le> int (length (filter (\<lambda>s. t_rate (at_time 100000) - s < 60000)
                       (timestamps initial_state ''steve''))) \<and>
   exit_point (on_block_break unlimited_settings initial_state sneaking_break calm_host (at_time 100000))
     = Exit_processed \<and>
   blocked_players (state (on_block_break unlimited_settings initial_state sneaking_break calm_host
     (at_time 100000))) ''steve'' = None"
  by code_simp

end
